theory Spec2Isabelle
  imports Complex_Main
begin

section \<open>JavaScript values used by the scoring engine\<close>

text \<open>
  The engine (\<^verbatim>\<open>exceptionHandler.js\<close>, \<^verbatim>\<open>analyzer.js\<close>) works on JSON-shaped data.
  Field values whose JavaScript type matters to the code (\<^verbatim>\<open>score\<close>, \<^verbatim>\<open>compliance\<close>)
  are values of \<open>jsval\<close>; an absent property reads as \<open>Undefined\<close>.  Numbers are the
  integers of the data model.  The aggregators add scores and apply \<^verbatim>\<open>Math.round\<close> to
  one quotient.  They are modelled on integers, which agrees with the doubles of the code
  as long as the scores are non-negative integers that add up to less than \<open>2 ^ 52\<close>
  (lemma \<open>js_round_quotient_exact\<close>); the theorems that state the value of an aggregate
  carry this bound, or the invariant of the data model (scores in \<open>[0,100]\<close>), which
  implies it for every array that JavaScript can hold (fewer than \<open>2 ^ 32\<close> items).  The
  percentages of the accessibility report multiply a quotient, and are modelled on
  doubles.  Strings are byte lists (UTF-8), on which equality is the equality of the
  JavaScript strings.
\<close>

datatype jsval = Undefined | Null | Bool bool | Num int | Str string

fun truthy :: "jsval \<Rightarrow> bool" where
  "truthy Undefined = False"
| "truthy Null = False"
| "truthy (Bool b) = b"
| "truthy (Num n) = (n \<noteq> 0)"
| "truthy (Str s) = (s \<noteq> [])"

text \<open>\<^verbatim>\<open>a || b\<close> on values.\<close>

definition js_or :: "jsval \<Rightarrow> jsval \<Rightarrow> jsval" where
  "js_or a b = (if truthy a then a else b)"

text \<open>
  Optional string properties (\<open>None\<close>: absent or null).  \<^verbatim>\<open>a || b\<close> between two of them,
  and \<^verbatim>\<open>a || 'literal'\<close> at the end of a chain.
\<close>

definition truthy_str :: "string option \<Rightarrow> bool" where
  "truthy_str a = (case a of None \<Rightarrow> False | Some s \<Rightarrow> s \<noteq> [])"

definition or_str :: "string option \<Rightarrow> string option \<Rightarrow> string option" where
  "or_str a b = (if truthy_str a then a else b)"

definition or_lit :: "string option \<Rightarrow> string \<Rightarrow> string" where
  "or_lit a d = (case a of None \<Rightarrow> d | Some s \<Rightarrow> if s \<noteq> [] then s else d)"

text \<open>\<^verbatim>\<open>Math.round(t / n)\<close> for integers \<open>t\<close> and \<open>n > 0\<close>: \<open>\<lfloor>t / n + 1/2\<rfloor>\<close>.\<close>

definition Math_round_div :: "int \<Rightarrow> int \<Rightarrow> int" where
  "Math_round_div t n = (2 * t + n) div (2 * n)"

subsection \<open>String constants of the source\<close>

text \<open>The Korean literals of the source, as their UTF-8 bytes.\<close>

definition sec_designStyles :: string where
  "sec_designStyles = [CHR 0xEB, CHR 0x94, CHR 0x94, CHR 0xEC, CHR 0x9E, CHR 0x90, CHR 0xEC,
     CHR 0x9D, CHR 0xB8, CHR 0x20, CHR 0xEC, CHR 0x8A, CHR 0xA4, CHR 0xED, CHR 0x83, CHR 0x80,
     CHR 0xEC, CHR 0x9D, CHR 0xBC]"

definition sec_components :: string where
  "sec_components = [CHR 0xEC, CHR 0xBB, CHR 0xB4, CHR 0xED, CHR 0x8F, CHR 0xAC, CHR 0xEB,
     CHR 0x84, CHR 0x8C, CHR 0xED, CHR 0x8A, CHR 0xB8]"

definition sec_basicPatterns :: string where
  "sec_basicPatterns = [CHR 0xEA, CHR 0xB8, CHR 0xB0, CHR 0xEB, CHR 0xB3, CHR 0xB8, CHR 0x20,
     CHR 0xED, CHR 0x8C, CHR 0xA8, CHR 0xED, CHR 0x84, CHR 0xB4]"

definition sec_servicePatterns :: string where
  "sec_servicePatterns = [CHR 0xEC, CHR 0x84, CHR 0x9C, CHR 0xEB, CHR 0xB9, CHR 0x84, CHR 0xEC,
     CHR 0x8A, CHR 0xA4, CHR 0x20, CHR 0xED, CHR 0x8C, CHR 0xA8, CHR 0xED, CHR 0x84, CHR 0xB4]"

definition sec_other :: string where
  "sec_other = [CHR 0xEA, CHR 0xB8, CHR 0xB0, CHR 0xED, CHR 0x83, CHR 0x80]"

definition str_compliant :: string where
  "str_compliant = [CHR 0xEC, CHR 0xA4, CHR 0x80, CHR 0xEC, CHR 0x88, CHR 0x98]"

definition str_default_reason :: string where
  "str_default_reason = [CHR 0xEC, CHR 0x98, CHR 0x88, CHR 0xEC, CHR 0x99, CHR 0xB8, CHR 0x20,
     CHR 0xED, CHR 0x95, CHR 0xAD, CHR 0xEB, CHR 0xAA, CHR 0xA9]"

definition str_exception_passed :: string where
  "str_exception_passed = [CHR 0xEC, CHR 0x98, CHR 0x88, CHR 0xEC, CHR 0x99, CHR 0xB8, CHR 0x20,
     CHR 0xEC, CHR 0xB2, CHR 0x98, CHR 0xEB, CHR 0xA6, CHR 0xAC, CHR 0xEB, CHR 0xA1, CHR 0x9C,
     CHR 0x20, CHR 0xEC, CHR 0x99, CHR 0x84, CHR 0xEB, CHR 0xB2, CHR 0xBD, CHR 0x20, CHR 0xEC,
     CHR 0xA4, CHR 0x80, CHR 0xEC, CHR 0x88, CHR 0x98]"

section \<open>Data model\<close>

text \<open>
  The analyzer builds every item it aggregates, and gives each a score that is a number
  (\<^verbatim>\<open>analyzer.js\<close>, lines 154-160, 270-276, 332, 355).  Its aggregator reads nothing
  but the score.  To the analyzer an item is a record with a score that is a number, or
  absent or null (\<open>None\<close>), and any further properties.
\<close>

record analyzer_item =
  score :: "int option"

text \<open>
  A scored finding as the exception handler receives it, with the properties the analyzer
  writes and the two the exception handler adds.  The key properties are optional strings;
  \<open>score\<close> and \<open>compliance\<close> keep their JavaScript type, which the code inspects.
\<close>

record item =
  category :: "string option"
  type :: "string option"
  name :: "string option"
  englishName :: "string option"
  score :: jsval
  compliance :: jsval
  issues :: "string list option"
  krdsUrl :: "string option"
  count :: "int option"
  excluded :: "bool option"
  exclusionReason :: "string option"

text \<open>The four sections, of items \<open>'i\<close>; an absent section is \<open>None\<close>.\<close>

record 'i section_data =
  designStyles :: "'i list option"
  components :: "'i list option"
  basicPatterns :: "'i list option"
  servicePatterns :: "'i list option"

section \<open>Category Aggregator and Overall Score Calculator\<close>

subsection \<open>\<^verbatim>\<open>exceptionHandler.js\<close>\<close>

text \<open>
  The body of the reducer of \<^verbatim>\<open>calculateCategoryScore\<close>:
  \<^verbatim>\<open>const score = item.score || item.compliance || 0;
  return sum + (typeof score === 'number' ? score : 0);\<close>
\<close>

definition item_contribution :: "item \<Rightarrow> int" where
  "item_contribution it =
     (case js_or (js_or (item.score it) (item.compliance it)) (Num 0) of
        Num n \<Rightarrow> n
      | _ \<Rightarrow> 0)"

text \<open>
  \<^verbatim>\<open>calculateCategoryScore\<close>: the contributions are added from 0 and the total is divided
  by the number of items and rounded.  The code does this on doubles.  While the
  contributions are non-negative integers with a total below \<open>2 ^ 52\<close>, every partial sum
  is an integer that a double holds exactly, and the rounded quotient is the one computed
  here (lemma \<open>calculateCategoryScore_double\<close>).  Beyond that bound the definition is not
  the code's result, and no theorem states the value of an aggregate there.
\<close>

definition calculateCategoryScore :: "item list option \<Rightarrow> int" where
  "calculateCategoryScore items =
     (case items of
        None \<Rightarrow> 0
      | Some xs \<Rightarrow>
          if length xs = 0 then 0
          else Math_round_div (foldl (\<lambda>sum it. sum + item_contribution it) 0 xs)
                 (int (length xs)))"

text \<open>
  \<^verbatim>\<open>calculateOverallScore\<close> of the exception handler pushes the aggregate of each
  section that is present and non-empty, and averages over the number pushed.
\<close>

definition push_section :: "item list option \<Rightarrow> int list \<Rightarrow> int list" where
  "push_section s scores =
     (case s of
        None \<Rightarrow> scores
      | Some xs \<Rightarrow> if length xs > 0 then scores @ [calculateCategoryScore s] else scores)"

definition calculateOverallScore :: "(item, 'a) section_data_scheme \<Rightarrow> int" where
  "calculateOverallScore data =
     (let scores = push_section (designStyles data) [];
          scores = push_section (components data) scores;
          scores = push_section (basicPatterns data) scores;
          scores = push_section (servicePatterns data) scores
      in if length scores = 0 then 0
         else Math_round_div (foldl (\<lambda>a b. a + b) 0 scores) (int (length scores)))"

subsection \<open>\<^verbatim>\<open>analyzer.js\<close>\<close>

text \<open>
  \<^verbatim>\<open>item.score || 0\<close> on an analyzer item: an absent score and a score of 0 give 0.
\<close>

definition score_or_zero :: "int option \<Rightarrow> int" where
  "score_or_zero v = (case v of None \<Rightarrow> 0 | Some n \<Rightarrow> if n \<noteq> 0 then n else 0)"

text \<open>
  \<^verbatim>\<open>calculateCategoryScore\<close> of the analyzer: the reducer is
  \<^verbatim>\<open>sum + (item.score || 0)\<close>, its second summand the contribution of the item.  As in
  the exception handler, the integer arithmetic is the code's for non-negative scores with
  a total below \<open>2 ^ 52\<close> (lemma \<open>analyzer_calculateCategoryScore_double\<close>).
\<close>

definition analyzer_contribution :: "'a analyzer_item_scheme \<Rightarrow> int" where
  "analyzer_contribution it = score_or_zero (analyzer_item.score it)"

definition analyzer_calculateCategoryScore :: "'a analyzer_item_scheme list option \<Rightarrow> int" where
  "analyzer_calculateCategoryScore items =
     (case items of
        None \<Rightarrow> 0
      | Some xs \<Rightarrow>
          if length xs = 0 then 0
          else Math_round_div (foldl (\<lambda>sum it. sum + analyzer_contribution it) 0 xs)
                 (int (length xs)))"

text \<open>The analyzer always averages four aggregates.\<close>

definition analyzer_calculateOverallScore ::
  "('a analyzer_item_scheme, 'b) section_data_scheme \<Rightarrow> int" where
  "analyzer_calculateOverallScore data =
     (let scores = [analyzer_calculateCategoryScore (designStyles data),
                    analyzer_calculateCategoryScore (components data),
                    analyzer_calculateCategoryScore (basicPatterns data),
                    analyzer_calculateCategoryScore (servicePatterns data)]
      in Math_round_div (foldl (\<lambda>a b. a + b) 0 scores) (int (length scores)))"

subsection \<open>What the analyzer computed for a result\<close>

text \<open>
  The exception handler receives the analyzer's result after the fact.  To say what the
  analyzer computed for it, an item of the result is read back as the analyzer item it was
  built from.  An item with a score that is a truth value or a text was not built by the
  analyzer: it has no reading, and neither has a section or a result that holds one.
\<close>

definition as_built :: "item \<Rightarrow> analyzer_item option" where
  "as_built it =
     (case item.score it of
        Num n \<Rightarrow> Some \<lparr>analyzer_item.score = Some n\<rparr>
      | Undefined \<Rightarrow> Some \<lparr>analyzer_item.score = None\<rparr>
      | Null \<Rightarrow> Some \<lparr>analyzer_item.score = None\<rparr>
      | _ \<Rightarrow> None)"

definition built_section :: "item list option \<Rightarrow> analyzer_item list option option" where
  "built_section s =
     (case s of
        None \<Rightarrow> Some None
      | Some xs \<Rightarrow> map_option Some (those (map as_built xs)))"

definition assembled_categoryScore :: "item list option \<Rightarrow> int option" where
  "assembled_categoryScore s = map_option analyzer_calculateCategoryScore (built_section s)"

definition assembled_overallScore :: "(item, 'a) section_data_scheme \<Rightarrow> int option" where
  "assembled_overallScore data =
     (case (built_section (designStyles data), built_section (components data),
            built_section (basicPatterns data), built_section (servicePatterns data)) of
        (Some a, Some b, Some c, Some d) \<Rightarrow>
          Some (analyzer_calculateOverallScore
                  \<lparr>designStyles = a, components = b, basicPatterns = c, servicePatterns = d\<rparr>)
      | _ \<Rightarrow> None)"

section \<open>Exception Override Engine (\<^verbatim>\<open>exceptionHandler.js\<close>)\<close>

text \<open>
  An exception request.  The properties \<^verbatim>\<open>section\<close> and \<^verbatim>\<open>category\<close> of the source
  are the fields \<open>exc_section\<close> and \<open>exc_category\<close> here.
\<close>

record exception_request =
  item_key :: "string option"
  item_name :: "string option"
  exc_section :: "string option"
  exc_category :: "string option"
  reason :: "string option"

record exception_info =
  applied :: bool
  checklistId :: "string option"
  totalExceptions :: nat
  originalScore :: int
  adjustedScore :: int
  scoreDifference :: int
  sections :: "string list"

text \<open>An entry of \<^verbatim>\<open>krdsCompliance.designTokensDetail\<close>.\<close>

record token_detail =
  detail_score :: int
  detail_compliance :: "string list"
  detail_issues :: "string list"
  detail_passed :: "string list"
  detail_excluded :: "bool option"

text \<open>
  \<^verbatim>\<open>krdsCompliance\<close>: \<open>kc_score\<close> is its \<^verbatim>\<open>score\<close>, \<open>kc_basicPatterns\<close> and
  \<open>kc_servicePatterns\<close> are the \<^verbatim>\<open>overallScore\<close> of its two pattern summaries.  The
  detail object is an association list in property order.
\<close>

record krds_compliance =
  kc_score :: int
  designTokensDetail :: "(string \<times> token_detail) list option"
  krdsComponents :: "item list option"
  kc_basicPatterns :: int
  kc_servicePatterns :: int

text \<open>The raw audit report and the report derived from it.\<close>

record axe_record =
  rule_id :: string
  impact :: "string option"
  tags :: "string list option"

record axe_results =
  violations :: "axe_record list option"
  passes :: "axe_record list option"
  incomplete :: "axe_record list"
  inapplicable :: "axe_record list"
  axe_timestamp :: "string option"

record by_category =
  perceivable :: int
  operable :: int
  understandable :: int
  robust :: int

record level_summary =
  level_total :: nat
  level_passed :: nat
  level_failed :: nat
  level_compliance :: int

record kwcag_report =
  overallCompliance :: int
  wcagLevel :: string
  kwcag_violations :: nat
  kwcag_passes :: nat
  byCategory :: by_category
  levelA :: level_summary
  levelAA :: level_summary

record analysis_result = "item section_data" +
  url :: string
  viewport :: string
  timestamp :: string
  executionTime :: int
  overallScore :: int
  axeResults :: axe_results
  kwcagReport :: kwcag_report
  krdsCompliance :: "krds_compliance option"
  exceptionInfo :: "exception_info option"

subsection \<open>Grouping\<close>

text \<open>
  \<^verbatim>\<open>grouped\<close> is a plain object.  For a section name that Node's
  \<^verbatim>\<open>Object.prototype\<close> defines, \<^verbatim>\<open>grouped[section]\<close> is the inherited value, which is
  truthy and has no \<^verbatim>\<open>push\<close>: the call \<^verbatim>\<open>grouped[section].push(exc)\<close> throws.
\<close>

datatype js_error = TypeError

definition object_prototype_keys :: "string list" where
  "object_prototype_keys =
     [''constructor'', ''__defineGetter__'', ''__defineSetter__'', ''hasOwnProperty'',
      ''__lookupGetter__'', ''__lookupSetter__'', ''isPrototypeOf'', ''propertyIsEnumerable'',
      ''toString'', ''valueOf'', ''__proto__'', ''toLocaleString'']"

type_synonym exception_groups = "(string \<times> exception_request list) list"

definition resolved_section :: "exception_request \<Rightarrow> string" where
  "resolved_section exc = or_lit (or_str (exc_section exc) (exc_category exc)) sec_other"

definition push_exception :: "string \<Rightarrow> exception_request \<Rightarrow> exception_groups \<Rightarrow> exception_groups" where
  "push_exception sec exc grouped =
     (case map_of grouped sec of
        None \<Rightarrow> grouped @ [(sec, [exc])]
      | Some _ \<Rightarrow> map (\<lambda>(k, es). if k = sec then (k, es @ [exc]) else (k, es)) grouped)"

fun group_loop :: "exception_request list \<Rightarrow> exception_groups \<Rightarrow> js_error + exception_groups" where
  "group_loop [] grouped = Inr grouped"
| "group_loop (exc # rest) grouped =
     (let sec = resolved_section exc
      in if sec \<in> set object_prototype_keys then Inl TypeError
         else group_loop rest (push_exception sec exc grouped))"

definition groupExceptionsBySection :: "exception_request list \<Rightarrow> js_error + exception_groups" where
  "groupExceptionsBySection exceptions = group_loop exceptions []"

text \<open>
  \<^verbatim>\<open>Object.keys\<close>: the keys that are array indices (canonical decimal numerals below
  \<open>2 ^ 32 - 1\<close>) in ascending numeric order, then the other keys in insertion order.
\<close>

definition is_digit :: "char \<Rightarrow> bool" where
  "is_digit c = (48 \<le> (of_char c :: nat) \<and> (of_char c :: nat) \<le> 57)"

definition decimal_value :: "string \<Rightarrow> nat" where
  "decimal_value s = foldl (\<lambda>n c. 10 * n + (of_char c - 48)) 0 s"

definition is_array_index :: "string \<Rightarrow> bool" where
  "is_array_index s =
     (s \<noteq> [] \<and> list_all is_digit s \<and> (if hd s = CHR ''0'' then s = ''0'' else True)
      \<and> decimal_value s < 2 ^ 32 - 1)"

definition object_keys :: "(string \<times> 'v) list \<Rightarrow> string list" where
  "object_keys obj =
     (let ks = map fst obj
      in sort_key decimal_value (filter is_array_index ks)
         @ filter (\<lambda>k. \<not> is_array_index k) ks)"

subsection \<open>Overrides\<close>

text \<open>
  \<^verbatim>\<open>item[keyField]\<close>; the callers pass \<^verbatim>\<open>'category'\<close>, \<^verbatim>\<open>'type'\<close> and \<^verbatim>\<open>'name'\<close>.
\<close>

definition item_field :: "string \<Rightarrow> item \<Rightarrow> string option" where
  "item_field keyField it =
     (if keyField = ''category'' then item.category it
      else if keyField = ''type'' then item.type it
      else if keyField = ''name'' then item.name it
      else if keyField = ''englishName'' then item.englishName it
      else None)"

text \<open>\<^verbatim>\<open>e.item_key || e.item_name || ''\<close>\<close>

definition exception_key :: "exception_request \<Rightarrow> string" where
  "exception_key e = or_lit (or_str (item_key e) (item_name e)) []"

text \<open>\<^verbatim>\<open>exceptions.map(e => e.item_key || e.item_name || '').filter(Boolean)\<close>\<close>

definition excludedKeys :: "exception_request list \<Rightarrow> string list" where
  "excludedKeys exceptions = filter (\<lambda>k. k \<noteq> []) (map exception_key exceptions)"

text \<open>\<^verbatim>\<open>item[keyField] || item.name || item.englishName || ''\<close>\<close>

definition itemKey :: "string \<Rightarrow> item \<Rightarrow> string" where
  "itemKey keyField it =
     or_lit (or_str (or_str (item_field keyField it) (item.name it)) (item.englishName it)) []"

text \<open>
  \<^verbatim>\<open>exceptions.find(e => (e.item_key || e.item_name) === itemKey)?.reason || '...'\<close>
\<close>

definition exclusion_reason :: "exception_request list \<Rightarrow> string \<Rightarrow> string" where
  "exclusion_reason exceptions k =
     (case find (\<lambda>e. or_str (item_key e) (item_name e) = Some k) exceptions of
        None \<Rightarrow> str_default_reason
      | Some e \<Rightarrow> or_lit (reason e) str_default_reason)"

text \<open>The callback of \<^verbatim>\<open>items.map\<close> in \<^verbatim>\<open>adjustSection\<close>.\<close>

definition adjust_item :: "exception_request list \<Rightarrow> string \<Rightarrow> item \<Rightarrow> item" where
  "adjust_item exceptions keyField it =
     (let k = itemKey keyField it
      in if k \<in> set (excludedKeys exceptions)
         then it\<lparr>score := Num 100,
                 compliance := (case item.compliance it of
                                  Str _ \<Rightarrow> Str str_compliant
                                | _ \<Rightarrow> Num 100),
                 issues := Some [],
                 excluded := Some True,
                 exclusionReason := Some (exclusion_reason exceptions k)\<rparr>
         else it)"

definition adjustSection ::
  "item list option \<Rightarrow> exception_request list \<Rightarrow> string \<Rightarrow> item list option" where
  "adjustSection items exceptions keyField =
     (case items of
        None \<Rightarrow> items
      | Some xs \<Rightarrow>
          if length xs = 0 then items
          else Some (map (adjust_item exceptions keyField) xs))"

definition adjustDesignTokensDetail ::
  "(string \<times> token_detail) list option \<Rightarrow> exception_request list
     \<Rightarrow> (string \<times> token_detail) list option" where
  "adjustDesignTokensDetail detail exceptions =
     (case detail of
        None \<Rightarrow> detail
      | Some d \<Rightarrow>
          Some (map (\<lambda>(key, v).
                  if key \<in> set (excludedKeys exceptions)
                  then (key, v\<lparr>detail_score := 100,
                                detail_compliance := [],
                                detail_issues := [],
                                detail_passed := [str_exception_passed],
                                detail_excluded := Some True\<rparr>)
                  else (key, v)) d))"

text \<open>
  The guarded steps of \<^verbatim>\<open>applyExceptions\<close>:
  \<^verbatim>\<open>if (exceptionsBySection[s] && adjusted.x) adjusted.x = adjustSection(adjusted.x, ..., k)\<close>,
  and the same with \<^verbatim>\<open>adjustDesignTokensDetail\<close>.
\<close>

definition adjust_if ::
  "exception_request list option \<Rightarrow> item list option \<Rightarrow> string \<Rightarrow> item list option" where
  "adjust_if grp items keyField =
     (case (grp, items) of
        (Some es, Some xs) \<Rightarrow> adjustSection items es keyField
      | _ \<Rightarrow> items)"

definition adjust_detail_if ::
  "exception_request list option \<Rightarrow> (string \<times> token_detail) list option
     \<Rightarrow> (string \<times> token_detail) list option" where
  "adjust_detail_if grp detail =
     (case (grp, detail) of
        (Some es, Some d) \<Rightarrow> adjustDesignTokensDetail detail es
      | _ \<Rightarrow> detail)"

definition adjust_krdsCompliance ::
  "exception_groups \<Rightarrow> krds_compliance option \<Rightarrow> krds_compliance option" where
  "adjust_krdsCompliance exceptionsBySection kc =
     (case kc of
        None \<Rightarrow> None
      | Some c \<Rightarrow>
          Some (c\<lparr>designTokensDetail :=
                     adjust_detail_if (map_of exceptionsBySection sec_designStyles)
                       (designTokensDetail c),
                   krdsComponents :=
                     adjust_if (map_of exceptionsBySection sec_components) (krdsComponents c)
                       ''type''\<rparr>))"

definition adjust_sections :: "exception_groups \<Rightarrow> analysis_result \<Rightarrow> analysis_result" where
  "adjust_sections exceptionsBySection adjusted =
     adjusted\<lparr>designStyles :=
                 adjust_if (map_of exceptionsBySection sec_designStyles) (designStyles adjusted)
                   ''category'',
               components :=
                 adjust_if (map_of exceptionsBySection sec_components) (components adjusted)
                   ''type'',
               basicPatterns :=
                 adjust_if (map_of exceptionsBySection sec_basicPatterns) (basicPatterns adjusted)
                   ''name'',
               servicePatterns :=
                 adjust_if (map_of exceptionsBySection sec_servicePatterns)
                   (servicePatterns adjusted) ''name'',
               krdsCompliance := adjust_krdsCompliance exceptionsBySection (krdsCompliance adjusted)\<rparr>"

text \<open>
  \<^verbatim>\<open>applyExceptions\<close>.  The deep copy \<^verbatim>\<open>JSON.parse(JSON.stringify(analysisResults))\<close>
  of a value is the value.
\<close>

definition applyExceptions ::
  "analysis_result \<Rightarrow> exception_request list option \<Rightarrow> string option
     \<Rightarrow> js_error + analysis_result" where
  "applyExceptions analysisResults exceptions cid =
     (case exceptions of
        None \<Rightarrow> Inr analysisResults
      | Some excs \<Rightarrow>
          if length excs = 0 then Inr analysisResults
          else
            (case groupExceptionsBySection excs of
               Inl e \<Rightarrow> Inl e
             | Inr exceptionsBySection \<Rightarrow>
                 (let adjusted = adjust_sections exceptionsBySection analysisResults;
                      original = overallScore analysisResults;
                      adjusted = adjusted\<lparr>overallScore := calculateOverallScore adjusted\<rparr>
                  in Inr (adjusted\<lparr>exceptionInfo := Some
                            \<lparr>applied = True,
                             checklistId = cid,
                             totalExceptions = length excs,
                             originalScore = original,
                             adjustedScore = overallScore adjusted,
                             scoreDifference = overallScore adjusted - original,
                             sections = object_keys exceptionsBySection\<rparr>\<rparr>))))"

section \<open>Accessibility Classifier (\<^verbatim>\<open>generateKWCAGReport\<close> in \<^verbatim>\<open>analyzer.js\<close>)\<close>

subsection \<open>Percentages in double precision\<close>

text \<open>
  The percentages are \<^verbatim>\<open>Math.round((p / total) * 100)\<close>: a division and a
  multiplication of doubles, each rounded to the nearest double (ties to even), then
  \<^verbatim>\<open>Math.round\<close>.  A positive double is a pair \<open>(m, k)\<close> standing for \<open>m / 2 ^ k\<close>.

  \<open>round_ties_even a b\<close> is the integer nearest to \<open>a / b\<close>, the even one at a tie.
  \<open>binade_shift a b k\<close> is the least \<open>k' \<ge> k\<close> with \<open>2 ^ 52 \<le> (a / b) * 2 ^ k'\<close>:
  for \<open>0 < a / b < 2 ^ 53\<close> the significand \<open>(a / b) * 2 ^ k'\<close> lies in
  \<open>[2 ^ 52, 2 ^ 53)\<close>, so rounding it to an integer rounds \<open>a / b\<close> to 53 bits.
\<close>

definition round_ties_even :: "nat \<Rightarrow> nat \<Rightarrow> nat" where
  "round_ties_even a b =
     (let q = a div b; r = a mod b
      in if 2 * r < b then q
         else if b < 2 * r then q + 1
         else if even q then q else q + 1)"

function binade_shift :: "nat \<Rightarrow> nat \<Rightarrow> nat \<Rightarrow> nat" where
  "binade_shift a b k =
     (if a = 0 \<or> 2 ^ 52 * b \<le> a * 2 ^ k then k else binade_shift a b (k + 1))"
  by pat_completeness auto
termination
proof (relation "measure (\<lambda>(a, b, k). 2 ^ 52 * b - a * 2 ^ k)")
  show "wf (measure (\<lambda>(a, b, k). 2 ^ 52 * b - a * 2 ^ k))"
    by simp
next
  fix a b k :: nat
  assume stop: "\<not> (a = 0 \<or> 2 ^ 52 * b \<le> a * 2 ^ k)"
  define x where "x = a * 2 ^ k"
  have next_x: "a * 2 ^ (k + 1) = 2 * x"
    by (simp add: x_def)
  have "0 < x" and "x < 2 ^ 52 * b"
    using stop by (simp_all add: x_def)
  then have "2 ^ 52 * b - 2 * x < 2 ^ 52 * b - x"
    by arith
  then show "((a, b, k + 1), (a, b, k)) \<in> measure (\<lambda>(a, b, k). 2 ^ 52 * b - a * 2 ^ k)"
    unfolding in_measure prod.case next_x x_def .
qed

declare binade_shift.simps [simp del]

text \<open>The double nearest to \<open>a / b\<close>, for \<open>0 \<le> a / b < 2 ^ 53\<close>.\<close>

definition double_of_quotient :: "nat \<Rightarrow> nat \<Rightarrow> nat \<times> nat" where
  "double_of_quotient a b =
     (let k = binade_shift a b 0 in (round_ties_even (a * 2 ^ k) b, k))"

text \<open>
  \<^verbatim>\<open>Math.round(t / n)\<close> on doubles, for natural numbers \<open>t\<close> and \<open>n > 0\<close>; it is
  compared with \<open>Math_round_div\<close> below.
\<close>

definition js_round_quotient :: "nat \<Rightarrow> nat \<Rightarrow> int" where
  "js_round_quotient t n =
     (case double_of_quotient t n of (m, k) \<Rightarrow> int ((2 * m + 2 ^ k) div (2 * 2 ^ k)))"

text \<open>\<^verbatim>\<open>Math.round((p / total) * 100)\<close> for \<open>total > 0\<close>.\<close>

definition percent :: "nat \<Rightarrow> nat \<Rightarrow> int" where
  "percent p t =
     (case double_of_quotient p t of
        (m, k) \<Rightarrow>
          (case double_of_quotient (m * 100) (2 ^ k) of
             (m', k') \<Rightarrow> int ((2 * m' + 2 ^ k') div (2 * 2 ^ k'))))"

subsection \<open>The report\<close>

text \<open>
  A regular expression that is an alternation of literal words matches a string iff one of
  the words occurs in it.
\<close>

fun has_substring :: "string \<Rightarrow> string \<Rightarrow> bool" where
  "has_substring w [] = (w = [])"
| "has_substring w (c # cs) = (take (length w) (c # cs) = w \<or> has_substring w cs)"

definition regex_test :: "string list \<Rightarrow> string \<Rightarrow> bool" where
  "regex_test ws s = list_ex (\<lambda>w. has_substring w s) ws"

text \<open>The four keys of \<^verbatim>\<open>categories\<close>.\<close>

datatype principle = Perceivable | Operable | Understandable | Robust

definition categorizeRule :: "string \<Rightarrow> principle" where
  "categorizeRule i =
     (if regex_test [''color'', ''contrast'', ''image'', ''text'', ''alt'', ''audio'',
                     ''video'', ''caption''] i then Perceivable
      else if regex_test [''keyboard'', ''focus'', ''navigation'', ''timing'', ''seizure'',
                          ''pointer''] i then Operable
      else if regex_test [''label'', ''lang'', ''heading'', ''error'', ''input'',
                          ''readable''] i then Understandable
      else if regex_test [''valid'', ''parse'', ''name'', ''role'', ''value'', ''aria''] i
        then Robust
      else Perceivable)"

record counter =
  cnt_violations :: nat
  cnt_passes :: nat

text \<open>
  The two \<^verbatim>\<open>forEach\<close> loops over the \<^verbatim>\<open>categories\<close> object, here a function from its
  four keys.
\<close>

definition count_violation :: "(principle \<Rightarrow> counter) \<Rightarrow> axe_record \<Rightarrow> principle \<Rightarrow> counter" where
  "count_violation categories v =
     (let cat = categorizeRule (rule_id v)
      in categories(cat := (categories cat)\<lparr>cnt_violations := cnt_violations (categories cat) + 1\<rparr>))"

definition count_pass :: "(principle \<Rightarrow> counter) \<Rightarrow> axe_record \<Rightarrow> principle \<Rightarrow> counter" where
  "count_pass categories p =
     (let cat = categorizeRule (rule_id p)
      in categories(cat := (categories cat)\<lparr>cnt_passes := cnt_passes (categories cat) + 1\<rparr>))"

definition category_score :: "counter \<Rightarrow> int" where
  "category_score d =
     (let t = cnt_violations d + cnt_passes d
      in if t > 0 then percent (cnt_passes d) t else 100)"

definition has_tag :: "string \<Rightarrow> axe_record \<Rightarrow> bool" where
  "has_tag t r = (case tags r of None \<Rightarrow> False | Some ts \<Rightarrow> t \<in> set ts)"

text \<open>\<^verbatim>\<open>axeResults.violations || []\<close>\<close>

definition or_empty :: "axe_record list option \<Rightarrow> axe_record list" where
  "or_empty l = (case l of None \<Rightarrow> [] | Some xs \<Rightarrow> xs)"

definition generateKWCAGReport :: "axe_results \<Rightarrow> kwcag_report" where
  "generateKWCAGReport axe =
     (let vs = or_empty (violations axe);
          ps = or_empty (passes axe);
          totalTests = length vs + length ps;
          oc = (if totalTests > 0 then percent (length ps) totalTests else 0);
          criticalViolations =
            filter (\<lambda>v. impact v = Some ''critical'' \<or> impact v = Some ''serious'') vs;
          lvl = (if length vs = 0 then ''AA''
                 else if length criticalViolations = 0 then ''A'' else ''None'');
          categories = (\<lambda>c. \<lparr>cnt_violations = 0, cnt_passes = 0\<rparr>);
          categories = foldl count_violation categories vs;
          categories = foldl count_pass categories ps
      in \<lparr>overallCompliance = oc,
          wcagLevel = lvl,
          kwcag_violations = length vs,
          kwcag_passes = length ps,
          byCategory = \<lparr>perceivable = category_score (categories Perceivable),
                        operable = category_score (categories Operable),
                        understandable = category_score (categories Understandable),
                        robust = category_score (categories Robust)\<rparr>,
          levelA = \<lparr>level_total = totalTests, level_passed = length ps,
                    level_failed = length vs, level_compliance = oc\<rparr>,
          levelAA = \<lparr>level_total = length (filter (has_tag ''wcag2aa'') vs),
                     level_passed = length (filter (has_tag ''wcag2aa'') ps),
                     level_failed = length (filter (has_tag ''wcag2aa'') vs),
                     level_compliance = 0\<rparr>\<rparr>)"

section \<open>The specification's wording, for comparison\<close>

text \<open>
  The contribution of an item as the specification words it: the score, the compliance
  when the score is absent or not a number, else 0.
\<close>

definition spec_contribution :: "item \<Rightarrow> int" where
  "spec_contribution it =
     (case item.score it of
        Num n \<Rightarrow> n
      | _ \<Rightarrow> (case item.compliance it of Num c \<Rightarrow> c | _ \<Rightarrow> 0))"

definition spec_categoryScore :: "item list option \<Rightarrow> int" where
  "spec_categoryScore items =
     (case items of
        None \<Rightarrow> 0
      | Some xs \<Rightarrow>
          if xs = [] then 0
          else Math_round_div (sum_list (map spec_contribution xs)) (int (length xs)))"

text \<open>
  The per-item override as the specification words it: the matching key of an exception is
  \<^verbatim>\<open>item_key\<close>, else \<^verbatim>\<open>item_name\<close>, else the empty string, which never matches; the
  key of an item is its designated field, else \<^verbatim>\<open>name\<close>, else \<^verbatim>\<open>englishName\<close>, else the
  empty string; the first exception whose key equals the item's rewrites it.
\<close>

definition first_nonempty :: "string option list \<Rightarrow> string" where
  "first_nonempty cs =
     (case filter (\<lambda>s. s \<noteq> []) (map (\<lambda>c. case c of None \<Rightarrow> [] | Some s \<Rightarrow> s) cs) of
        [] \<Rightarrow> []
      | s # _ \<Rightarrow> s)"

definition spec_matching_key :: "exception_request \<Rightarrow> string" where
  "spec_matching_key e = first_nonempty [item_key e, item_name e]"

definition spec_item_key :: "string \<Rightarrow> item \<Rightarrow> string" where
  "spec_item_key keyField it =
     first_nonempty [item_field keyField it, item.name it, item.englishName it]"

definition spec_adjust_item :: "exception_request list \<Rightarrow> string \<Rightarrow> item \<Rightarrow> item" where
  "spec_adjust_item exceptions keyField it =
     (case find (\<lambda>e. spec_matching_key e \<noteq> []
                     \<and> spec_matching_key e = spec_item_key keyField it) exceptions of
        None \<Rightarrow> it
      | Some e \<Rightarrow>
          it\<lparr>score := Num 100,
             compliance := (case item.compliance it of
                              Str _ \<Rightarrow> Str str_compliant
                            | _ \<Rightarrow> Num 100),
             issues := Some [],
             excluded := Some True,
             exclusionReason := Some (first_nonempty [reason e, Some str_default_reason])\<rparr>)"

text \<open>
  The rounded arithmetic mean of a non-empty list of integers, halves rounded up as
  \<^verbatim>\<open>Math.round\<close> does.
\<close>

definition rounded_mean :: "int list \<Rightarrow> int" where
  "rounded_mean vs = \<lfloor>real_of_int (sum_list vs) / real (length vs) + 1 / 2\<rfloor>"

text \<open>The score of an item when it is a number.\<close>

definition score_value :: "item \<Rightarrow> int" where
  "score_value it = (case item.score it of Num n \<Rightarrow> n | _ \<Rightarrow> 0)"

text \<open>
  Items with an integer score between 0 and 100; items in which a score of 0 does not stand
  beside a compliance that is a non-zero number.
\<close>

definition integer_score_0_100 :: "item \<Rightarrow> bool" where
  "integer_score_0_100 it = (case item.score it of Num n \<Rightarrow> 0 \<le> n \<and> n \<le> 100 | _ \<Rightarrow> False)"

definition no_compliance_beside_zero :: "item \<Rightarrow> bool" where
  "no_compliance_beside_zero it =
     (if item.score it = Num 0 then (case item.compliance it of Num c \<Rightarrow> c = 0 | _ \<Rightarrow> True)
      else True)"

text \<open>The same of an item of the analyzer.\<close>

definition analyzer_score_0_100 :: "'a analyzer_item_scheme \<Rightarrow> bool" where
  "analyzer_score_0_100 it =
     (case analyzer_item.score it of Some n \<Rightarrow> 0 \<le> n \<and> n \<le> 100 | None \<Rightarrow> False)"

text \<open>A section that is present and has items; the items of a section.\<close>

definition present :: "item list option \<Rightarrow> bool" where
  "present s = (case s of None \<Rightarrow> False | Some xs \<Rightarrow> xs \<noteq> [])"

definition items_of :: "item list option \<Rightarrow> item list" where
  "items_of s = (case s of None \<Rightarrow> [] | Some xs \<Rightarrow> xs)"

text \<open>
  The invariant of the data model on the items of a result: the score is an integer
  between 0 and 100, and a numeric compliance lies in the same range.
\<close>

definition well_scored :: "item \<Rightarrow> bool" where
  "well_scored it =
     ((case item.score it of Num n \<Rightarrow> 0 \<le> n \<and> n \<le> 100 | _ \<Rightarrow> False)
      \<and> (case item.compliance it of Num c \<Rightarrow> 0 \<le> c \<and> c \<le> 100 | _ \<Rightarrow> True))"

definition well_formed :: "(item, 'a) section_data_scheme \<Rightarrow> bool" where
  "well_formed data =
     list_all well_scored
       (items_of (designStyles data) @ items_of (components data)
        @ items_of (basicPatterns data) @ items_of (servicePatterns data))"

text \<open>
  The compliance of a bucket as the specification words it:
  \<open>round (100 * passes / (passes + violations))\<close>, or 100 for a bucket with no
  observations.
\<close>

definition spec_bucket_compliance :: "nat \<Rightarrow> nat \<Rightarrow> int" where
  "spec_bucket_compliance p v =
     (if p + v = 0 then 100 else Math_round_div (100 * int p) (int (p + v)))"

section \<open>Reading a result\<close>

text \<open>The entry of \<^verbatim>\<open>byCategory\<close> under the key of a principle.\<close>

definition bucket_value :: "by_category \<Rightarrow> principle \<Rightarrow> int" where
  "bucket_value b c =
     (case c of
        Perceivable \<Rightarrow> perceivable b
      | Operable \<Rightarrow> operable b
      | Understandable \<Rightarrow> understandable b
      | Robust \<Rightarrow> robust b)"

text \<open>The records of a list that \<^verbatim>\<open>categorizeRule\<close> assigns to a principle.\<close>

definition bucket :: "principle \<Rightarrow> axe_record list \<Rightarrow> axe_record list" where
  "bucket c rs = filter (\<lambda>r. categorizeRule (rule_id r) = c) rs"

text \<open>A violation that is critical or serious.\<close>

definition is_critical :: "axe_record \<Rightarrow> bool" where
  "is_critical v = (impact v = Some ''critical'' \<or> impact v = Some ''serious'')"


text \<open>The audit record of a returned result; none when the call threw.\<close>

definition info_of :: "js_error + analysis_result \<Rightarrow> exception_info option" where
  "info_of res = (case res of Inl e \<Rightarrow> None | Inr r \<Rightarrow> exceptionInfo r)"

section \<open>Sample data\<close>

text \<open>An object with no properties, an exception request with none, an empty report.\<close>

definition empty_item :: item where
  "empty_item =
     \<lparr>category = None, type = None, name = None, englishName = None, score = Undefined,
      compliance = Undefined, issues = None, krdsUrl = None, count = None, excluded = None,
      exclusionReason = None\<rparr>"

definition empty_request :: exception_request where
  "empty_request =
     \<lparr>item_key = None, item_name = None, exc_section = None, exc_category = None,
      reason = None\<rparr>"

definition empty_axe :: axe_results where
  "empty_axe =
     \<lparr>violations = Some [], passes = Some [], incomplete = [], inapplicable = [],
      axe_timestamp = None\<rparr>"

text \<open>
  The scenario of the specification: a design-styles section with \<^verbatim>\<open>colors\<close> at 40 and
  \<^verbatim>\<open>typography\<close> at 70, the other sections with one item each, assembled as
  \<^verbatim>\<open>performKRDSAnalysis\<close> assembles a result (overall score
  \<open>round ((55 + 80 + 60 + 65) / 4) = 65\<close>, also stored as the compliance score).
\<close>

definition item_colors :: item where
  "item_colors = empty_item\<lparr>category := Some ''colors'', score := Num 40\<rparr>"

definition item_typography :: item where
  "item_typography = empty_item\<lparr>category := Some ''typography'', score := Num 70\<rparr>"

definition item_button :: item where
  "item_button =
     empty_item\<lparr>type := Some ''button'', name := Some ''button'', score := Num 80,
                 compliance := Str str_compliant\<rparr>"

definition sample_result :: analysis_result where
  "sample_result =
     \<lparr>designStyles = Some [item_colors, item_typography],
      components = Some [item_button],
      basicPatterns = Some [empty_item\<lparr>name := Some ''layout'', score := Num 60\<rparr>],
      servicePatterns = Some [empty_item\<lparr>name := Some ''login'', score := Num 65\<rparr>],
      url = ''https://example.org'', viewport = ''desktop'', timestamp = ''t'',
      executionTime = 1, overallScore = 65,
      axeResults = empty_axe, kwcagReport = generateKWCAGReport empty_axe,
      krdsCompliance = Some
        \<lparr>kc_score = 65,
         designTokensDetail = Some
           [(''colors'', \<lparr>detail_score = 40, detail_compliance = [], detail_issues = [],
                          detail_passed = [], detail_excluded = None\<rparr>),
            (''typography'', \<lparr>detail_score = 70, detail_compliance = [], detail_issues = [],
                              detail_passed = [], detail_excluded = None\<rparr>)],
         krdsComponents = Some [item_button],
         kc_basicPatterns = 60, kc_servicePatterns = 65\<rparr>,
      exceptionInfo = None\<rparr>"

definition exception_colors :: exception_request where
  "exception_colors =
     empty_request\<lparr>item_key := Some ''colors'', exc_section := Some sec_designStyles,
                    reason := Some ''agency exemption''\<rparr>"

text \<open>
  What \<^verbatim>\<open>applyExceptions\<close> returns for the scenario with checklist id
  \<^verbatim>\<open>template-123\<close>: the design-styles aggregate moves from 55 to 85 and the overall
  score to \<open>round ((85 + 80 + 60 + 65) / 4) = 73\<close>.
\<close>

definition sample_adjusted :: analysis_result where
  "sample_adjusted =
     sample_result
       \<lparr>designStyles := Some
          [item_colors\<lparr>score := Num 100, compliance := Num 100, issues := Some [],
                        excluded := Some True, exclusionReason := Some ''agency exemption''\<rparr>,
           item_typography],
        krdsCompliance := Some
          \<lparr>kc_score = 65,
           designTokensDetail = Some
             [(''colors'', \<lparr>detail_score = 100, detail_compliance = [], detail_issues = [],
                            detail_passed = [str_exception_passed],
                            detail_excluded = Some True\<rparr>),
              (''typography'', \<lparr>detail_score = 70, detail_compliance = [],
                                detail_issues = [], detail_passed = [],
                                detail_excluded = None\<rparr>)],
           krdsComponents = Some [item_button],
           kc_basicPatterns = 60, kc_servicePatterns = 65\<rparr>,
        overallScore := 73,
        exceptionInfo := Some
          \<lparr>applied = True, checklistId = Some ''template-123'', totalExceptions = 1,
           originalScore = 65, adjustedScore = 73, scoreDifference = 8,
           sections = [sec_designStyles]\<rparr>\<rparr>"

text \<open>An exception request that names no section.\<close>

definition exception_unsectioned :: exception_request where
  "exception_unsectioned = empty_request\<lparr>item_key := Some ''colors''\<rparr>"

text \<open>
  Items outside the analyzer's output: a score that is a text, a score of 0 beside a
  compliance of 50, no score beside a compliance of 70.
\<close>

definition item_text_score :: item where
  "item_text_score = empty_item\<lparr>score := Str ''n/a'', compliance := Num 70\<rparr>"

definition item_zero_score :: item where
  "item_zero_score = empty_item\<lparr>score := Num 0, compliance := Num 50\<rparr>"

definition item_no_score :: item where
  "item_no_score = empty_item\<lparr>compliance := Num 70\<rparr>"

text \<open>
  An analysis result in which only the design-styles section has an item, \<^verbatim>\<open>colors\<close> at
  80, and the other three sections are empty arrays.  Its overall score is the one
  \<^verbatim>\<open>calculateOverallScore\<close> of the analyzer gives for these sections,
  \<open>round ((80 + 0 + 0 + 0) / 4) = 20\<close>.  An exception request for the design-styles section
  whose key names no item.  What \<^verbatim>\<open>applyExceptions\<close> returns for the two with checklist
  id \<^verbatim>\<open>template-123\<close>.
\<close>

definition item_eighty :: item where
  "item_eighty =
     empty_item\<lparr>category := Some ''colors'', name := Some ''colors'', score := Num 80,
                 compliance := Num 80, issues := Some []\<rparr>"

definition result_one_section :: analysis_result where
  "result_one_section =
     \<lparr>designStyles = Some [item_eighty], components = Some [], basicPatterns = Some [],
      servicePatterns = Some [],
      url = ''https://example.org'', viewport = ''desktop'', timestamp = ''t'',
      executionTime = 1, overallScore = 20,
      axeResults = empty_axe, kwcagReport = generateKWCAGReport empty_axe,
      krdsCompliance = Some
        \<lparr>kc_score = 20,
         designTokensDetail = Some
           [(''colors'', \<lparr>detail_score = 80, detail_compliance = [], detail_issues = [],
                          detail_passed = [str_compliant], detail_excluded = None\<rparr>)],
         krdsComponents = Some [],
         kc_basicPatterns = 0, kc_servicePatterns = 0\<rparr>,
      exceptionInfo = None\<rparr>"

definition exception_nomatch :: exception_request where
  "exception_nomatch =
     empty_request\<lparr>item_key := Some ''nonexistent'', exc_section := Some sec_designStyles,
                    reason := Some ''agency exemption''\<rparr>"

definition result_one_section_adjusted :: analysis_result where
  "result_one_section_adjusted =
     result_one_section
       \<lparr>overallScore := 80,
        exceptionInfo := Some
          \<lparr>applied = True, checklistId = Some ''template-123'', totalExceptions = 1,
           originalScore = 20, adjustedScore = 80, scoreDifference = 60,
           sections = [sec_designStyles]\<rparr>\<rparr>"

text \<open>
  Audit reports: three moderate violations and seven passes; seventeen violations and
  twenty-three passes of the rule \<^verbatim>\<open>color-contrast\<close>.
\<close>

definition record_contrast :: axe_record where
  "record_contrast = \<lparr>rule_id = ''color-contrast'', impact = Some ''moderate'', tags = None\<rparr>"

definition axe_three_seven :: axe_results where
  "axe_three_seven =
     empty_axe\<lparr>violations := Some (replicate 3 record_contrast),
               passes := Some (replicate 7 record_contrast)\<rparr>"

definition axe_contrast :: axe_results where
  "axe_contrast =
     empty_axe\<lparr>violations := Some (replicate 17 record_contrast),
               passes := Some (replicate 23 record_contrast)\<rparr>"

section \<open>Rounding\<close>

lemma Math_round_div_floor:
  assumes "0 < n"
  shows "Math_round_div t n = \<lfloor>real_of_int t / real_of_int n + 1 / 2\<rfloor>"
proof -
  have "real_of_int t / real_of_int n + 1 / 2
      = real_of_int (2 * t + n) / real_of_int (2 * n)"
    using assms by (simp add: field_simps)
  then show ?thesis
    unfolding Math_round_div_def by (simp only: floor_divide_of_int_eq)
qed

section \<open>Section names\<close>

lemma sec_distinct:
  "sec_designStyles \<noteq> sec_components" "sec_designStyles \<noteq> sec_basicPatterns"
  "sec_designStyles \<noteq> sec_servicePatterns" "sec_components \<noteq> sec_basicPatterns"
  "sec_components \<noteq> sec_servicePatterns" "sec_basicPatterns \<noteq> sec_servicePatterns"
  "sec_other \<noteq> sec_designStyles" "sec_other \<noteq> sec_components"
  "sec_other \<noteq> sec_basicPatterns" "sec_other \<noteq> sec_servicePatterns"
  by (simp_all add: sec_designStyles_def sec_components_def sec_basicPatterns_def
        sec_servicePatterns_def sec_other_def)

lemma group_sample:
  "groupExceptionsBySection [exception_colors] = Inr [(sec_designStyles, [exception_colors])]"
  by (simp add: groupExceptionsBySection_def resolved_section_def exception_colors_def
      empty_request_def or_lit_def or_str_def truthy_str_def push_exception_def
      object_prototype_keys_def sec_designStyles_def Let_def)

section \<open>The no-op law\<close>

text \<open>
  Claim C8.  For every analysis result and every checklist id, adjusting with an absent or
  an empty exception list returns the original result itself: nothing is attached to it and
  nothing in it differs from the input.
\<close>

theorem noop_law:
  "applyExceptions r None cid = Inr r \<and> applyExceptions r (Some []) cid = Inr r"
  by (simp add: applyExceptions_def)

theorem noop_law_witness:
  "applyExceptions sample_result (Some []) (Some ''c1'') = Inr sample_result
   \<and> exceptionInfo sample_result = None"
  using noop_law [of sample_result "Some ''c1''"] by (simp add: sample_result_def)

section \<open>The per-item override\<close>

lemma or_lit_or_str2: "or_lit (or_str a b) [] = first_nonempty [a, b]"
  by (cases a; cases b) (auto simp: or_lit_def or_str_def truthy_str_def first_nonempty_def)

lemma or_lit_or_str3: "or_lit (or_str (or_str a b) c) [] = first_nonempty [a, b, c]"
  by (cases a; cases b; cases c)
     (auto simp: or_lit_def or_str_def truthy_str_def first_nonempty_def)

lemma exception_key_spec: "exception_key e = spec_matching_key e"
  by (simp add: exception_key_def spec_matching_key_def or_lit_or_str2)

lemma itemKey_spec: "itemKey kf it = spec_item_key kf it"
  by (simp add: itemKey_def spec_item_key_def or_lit_or_str3)

lemma or_str_eq_Some:
  "k \<noteq> [] \<Longrightarrow> (or_str a b = Some k) = (first_nonempty [a, b] = k)"
  by (cases a; cases b) (auto simp: or_str_def truthy_str_def first_nonempty_def)

lemma or_lit_default: "or_lit r d = first_nonempty [r, Some d]"
  by (cases r) (auto simp: or_lit_def first_nonempty_def)

lemma find_pred_cong: "(\<And>x. x \<in> set xs \<Longrightarrow> P x = Q x) \<Longrightarrow> find P xs = find Q xs"
  by (induction xs) auto

lemma find_None_set: "(find P xs = None) = (\<forall>x\<in>set xs. \<not> P x)"
  by (induction xs) auto

lemma mem_excludedKeys:
  "(k \<in> set (excludedKeys es)) = (k \<noteq> [] \<and> (\<exists>e\<in>set es. spec_matching_key e = k))"
  by (auto simp: excludedKeys_def exception_key_spec)

text \<open>
  The callback of the source tests membership in the filtered key list and then searches
  the exceptions again with \<^verbatim>\<open>(e.item_key || e.item_name) === itemKey\<close>; both agree with
  one search for the first exception whose non-empty key is the item's key.
\<close>

lemma adjust_item_spec: "adjust_item es kf it = spec_adjust_item es kf it"
proof (cases "spec_item_key kf it = []")
  case True
  then have "find (\<lambda>e. spec_matching_key e \<noteq> [] \<and> spec_matching_key e = spec_item_key kf it) es
      = None"
    by (simp add: find_None_set)
  with True show ?thesis
    by (simp add: adjust_item_def spec_adjust_item_def itemKey_spec mem_excludedKeys Let_def)
next
  case False
  let ?k = "spec_item_key kf it"
  have same: "find (\<lambda>e. or_str (item_key e) (item_name e) = Some ?k) es
      = find (\<lambda>e. spec_matching_key e \<noteq> [] \<and> spec_matching_key e = ?k) es"
    using False by (intro find_pred_cong) (auto simp: or_str_eq_Some spec_matching_key_def)
  show ?thesis
  proof (cases "find (\<lambda>e. spec_matching_key e \<noteq> [] \<and> spec_matching_key e = ?k) es")
    case None
    then have "?k \<notin> set (excludedKeys es)"
      by (auto simp: mem_excludedKeys find_None_set)
    with None show ?thesis
      by (simp add: adjust_item_def spec_adjust_item_def itemKey_spec Let_def)
  next
    case (Some e)
    then have "?k \<in> set (excludedKeys es)"
      using False by (auto simp: mem_excludedKeys find_Some_iff)
    with Some same show ?thesis
      by (simp add: adjust_item_def spec_adjust_item_def itemKey_spec Let_def
          exclusion_reason_def or_lit_default)
  qed
qed

text \<open>
  Claim C5.  For every section and every exception group applied to it, \<^verbatim>\<open>adjustSection\<close>
  treats each item on its own: an item whose resolved key (designated key field, else
  \<^verbatim>\<open>name\<close>, else \<^verbatim>\<open>englishName\<close>, else the empty string) equals the resolved matching
  key of some exception (\<^verbatim>\<open>item_key\<close>, else \<^verbatim>\<open>item_name\<close>, else the empty string, which
  never matches) is rewritten to score 100, compliance the compliant string when the
  original compliance was a string and the number 100 otherwise, no issues, excluded, with
  the reason of the first matching exception or the default placeholder; every other item
  is returned unchanged.  An absent section stays absent.
\<close>

theorem adjustSection_rewrites_matching_items:
  "adjustSection items es kf = map_option (map (spec_adjust_item es kf)) items"
  by (cases items) (simp_all add: adjustSection_def adjust_item_spec)

theorem adjustSection_rewrites_matching_items_witness:
  "adjustSection (Some [item_colors, item_typography]) [exception_colors] ''category''
     = Some [item_colors\<lparr>score := Num 100, compliance := Num 100, issues := Some [],
                          excluded := Some True,
                          exclusionReason := Some ''agency exemption''\<rparr>,
             item_typography]"
  using adjustSection_rewrites_matching_items
          [of "Some [item_colors, item_typography]" "[exception_colors]" "''category''"]
  by (simp add: spec_adjust_item_def spec_matching_key_def spec_item_key_def
      first_nonempty_def item_field_def item_colors_def item_typography_def empty_item_def
      exception_colors_def empty_request_def)

section \<open>Grouping and the audit record\<close>

lemma push_exception_keys: "fst ` set (push_exception sec e g) = insert sec (fst ` set g)"
proof (cases "map_of g sec")
  case None
  then show ?thesis by (simp add: push_exception_def)
next
  case (Some es)
  then have "sec \<in> fst ` set g"
    by (force dest: map_of_SomeD)
  moreover have "fst ` set (map (\<lambda>(k, es). if k = sec then (k, es @ [e]) else (k, es)) g)
      = fst ` set g"
    by (induction g) (auto split: if_splits)
  ultimately show ?thesis
    using Some by (auto simp: push_exception_def)
qed

lemma group_loop_keys:
  "group_loop es g = Inr g' \<Longrightarrow> fst ` set g' = fst ` set g \<union> resolved_section ` set es"
proof (induction es arbitrary: g)
  case Nil
  then show ?case by simp
next
  case (Cons e es)
  then show ?case
    by (auto simp: Let_def push_exception_keys split: if_splits)
qed

lemma group_loop_total:
  "(group_loop es g = Inl TypeError)
     = (\<exists>e\<in>set es. resolved_section e \<in> set object_prototype_keys)"
proof (induction es arbitrary: g)
  case Nil
  then show ?case by simp
next
  case (Cons e es)
  then show ?case by (simp add: Let_def)
qed

lemma set_object_keys: "set (object_keys g) = fst ` set g"
  by (auto simp: object_keys_def Let_def)

lemma applyExceptions_grouped:
  assumes "es \<noteq> []" and "groupExceptionsBySection es = Inr g"
  shows "applyExceptions r (Some es) cid =
     Inr ((adjust_sections g r)
            \<lparr>overallScore := calculateOverallScore (adjust_sections g r),
             exceptionInfo := Some
               \<lparr>applied = True, checklistId = cid, totalExceptions = length es,
                originalScore = overallScore r,
                adjustedScore = calculateOverallScore (adjust_sections g r),
                scoreDifference = calculateOverallScore (adjust_sections g r) - overallScore r,
                sections = object_keys g\<rparr>\<rparr>)"
  using assms by (simp add: applyExceptions_def Let_def)

lemma applyExceptions_Inr:
  assumes "es \<noteq> []" and "applyExceptions r (Some es) cid = Inr r'"
  obtains g where "groupExceptionsBySection es = Inr g"
  using assms by (auto simp: applyExceptions_def split: sum.splits)

lemma applyExceptions_raises:
  "(applyExceptions r (Some es) cid = Inl TypeError)
     = (\<exists>e\<in>set es. resolved_section e \<in> set object_prototype_keys)"
proof (cases "es = []")
  case True
  then show ?thesis by (simp add: applyExceptions_def)
next
  case False
  then show ?thesis
    using group_loop_total [of es "[]"]
    by (cases "groupExceptionsBySection es")
       (auto simp: applyExceptions_def groupExceptionsBySection_def Let_def)
qed

section \<open>The scenario, evaluated\<close>

lemma adjustSection_Some:
  "adjustSection (Some xs) es kf = Some (map (adjust_item es kf) xs)"
  by (simp add: adjustSection_def)

lemma excludedKeys_colors: "excludedKeys [exception_colors] = [''colors'']"
  by (simp add: excludedKeys_def exception_key_def exception_colors_def empty_request_def
      or_lit_def or_str_def truthy_str_def)

lemma exclusion_reason_colors:
  "exclusion_reason [exception_colors] ''colors'' = ''agency exemption''"
  by (simp add: exclusion_reason_def exception_colors_def empty_request_def or_lit_def
      or_str_def truthy_str_def)

lemma adjust_colors:
  "adjust_item [exception_colors] ''category'' item_colors
     = item_colors\<lparr>score := Num 100, compliance := Num 100, issues := Some [],
                    excluded := Some True, exclusionReason := Some ''agency exemption''\<rparr>"
proof -
  have k: "itemKey ''category'' item_colors = ''colors''"
    by (simp add: itemKey_def item_field_def item_colors_def empty_item_def or_lit_def
        or_str_def truthy_str_def)
  have c: "item.compliance item_colors = Undefined"
    by (simp add: item_colors_def empty_item_def)
  show ?thesis
    by (simp add: adjust_item_def k c excludedKeys_colors exclusion_reason_colors)
qed

lemma adjust_typography:
  "adjust_item [exception_colors] ''category'' item_typography = item_typography"
  by (simp add: adjust_item_def excludedKeys_colors itemKey_def item_field_def
      item_typography_def empty_item_def or_lit_def or_str_def truthy_str_def Let_def)

lemma map_of_sample:
  "map_of [(sec_designStyles, [exception_colors])] sec_designStyles = Some [exception_colors]"
  "map_of [(sec_designStyles, [exception_colors])] sec_components = None"
  "map_of [(sec_designStyles, [exception_colors])] sec_basicPatterns = None"
  "map_of [(sec_designStyles, [exception_colors])] sec_servicePatterns = None"
  using sec_distinct by simp_all

lemma object_keys_sample:
  "object_keys [(sec_designStyles, [exception_colors])] = [sec_designStyles]"
  by (simp add: object_keys_def is_array_index_def sec_designStyles_def is_digit_def)

lemma adjust_sections_sample:
  "adjust_sections [(sec_designStyles, [exception_colors])] sample_result
     = sample_result
       \<lparr>designStyles := Some
          [item_colors\<lparr>score := Num 100, compliance := Num 100, issues := Some [],
                        excluded := Some True, exclusionReason := Some ''agency exemption''\<rparr>,
           item_typography],
        krdsCompliance := Some
          \<lparr>kc_score = 65,
           designTokensDetail = Some
             [(''colors'', \<lparr>detail_score = 100, detail_compliance = [], detail_issues = [],
                            detail_passed = [str_exception_passed],
                            detail_excluded = Some True\<rparr>),
              (''typography'', \<lparr>detail_score = 70, detail_compliance = [],
                                detail_issues = [], detail_passed = [],
                                detail_excluded = None\<rparr>)],
           krdsComponents = Some [item_button],
           kc_basicPatterns = 60, kc_servicePatterns = 65\<rparr>\<rparr>"
  unfolding adjust_sections_def map_of_sample adjust_krdsCompliance_def
  by (simp add: sample_result_def adjust_if_def adjust_detail_if_def adjustSection_Some
      adjust_colors adjust_typography adjustDesignTokensDetail_def excludedKeys_colors)

lemma sample_apply:
  "applyExceptions sample_result (Some [exception_colors]) (Some ''template-123'')
     = Inr sample_adjusted"
  unfolding applyExceptions_grouped [OF list.distinct(2) group_sample] adjust_sections_sample
    object_keys_sample
  by (simp add: sample_adjusted_def sample_result_def calculateOverallScore_def
      push_section_def calculateCategoryScore_def item_contribution_def js_or_def
      item_colors_def item_typography_def item_button_def empty_item_def Math_round_div_def)

lemma group_unsectioned:
  "groupExceptionsBySection [exception_unsectioned] = Inr [(sec_other, [exception_unsectioned])]"
  by (simp add: groupExceptionsBySection_def resolved_section_def exception_unsectioned_def
      empty_request_def or_lit_def or_str_def truthy_str_def push_exception_def
      object_prototype_keys_def sec_other_def Let_def)

lemma object_keys_other:
  "object_keys [(sec_other, [exception_unsectioned])] = [sec_other]"
  by (simp add: object_keys_def is_array_index_def sec_other_def is_digit_def)

text \<open>
  Claim C4, as amended.  For every invocation with a non-empty exception list that returns,
  the \<^verbatim>\<open>sections\<close> field of the audit record holds exactly the group keys, that is the
  resolved section names of all the exceptions given: the four recognized names, the
  bucket for exceptions that name no section, and unrecognized names alike.  Membership
  reflects the requests, whether or not any item matched.
\<close>

theorem sections_are_all_group_keys:
  assumes "es \<noteq> []" and "applyExceptions r (Some es) cid = Inr r'"
  shows "map_option (\<lambda>i. set (sections i)) (exceptionInfo r') = Some (resolved_section ` set es)"
proof -
  from assms obtain g where g: "groupExceptionsBySection es = Inr g"
    by (rule applyExceptions_Inr)
  then have "fst ` set g = resolved_section ` set es"
    using group_loop_keys [of es "[]" g] by (simp add: groupExceptionsBySection_def)
  with assms g show ?thesis
    by (auto simp: applyExceptions_grouped set_object_keys)
qed

theorem sections_witness:
  "map_option (\<lambda>i. set (sections i)) (exceptionInfo sample_adjusted)
     = Some (resolved_section ` set [exception_colors])
   \<and> [exception_colors] \<noteq> []"
  using sections_are_all_group_keys [OF list.distinct(2) sample_apply] by simp

text \<open>
  The claim as stated fails: an exception that names no section puts the key of the
  bucket for such exceptions, which is none of the four section names, into the field.
\<close>

theorem sections_counterexample:
  "map_option sections
     (info_of (applyExceptions sample_result (Some [exception_unsectioned]) None))
     = Some [sec_other]
   \<and> sec_other \<notin> set [sec_designStyles, sec_components, sec_basicPatterns,
                          sec_servicePatterns]"
  unfolding applyExceptions_grouped [OF list.distinct(2) group_unsectioned] object_keys_other
  using sec_distinct by (simp add: info_of_def)

section \<open>Applying the same exceptions twice\<close>

lemma itemKey_adjust_item: "itemKey kf (adjust_item es kf it) = itemKey kf it"
  by (simp add: adjust_item_def itemKey_def item_field_def Let_def)

lemma adjust_item_idem: "adjust_item es kf (adjust_item es kf it) = adjust_item es kf it"
proof (cases "itemKey kf it \<in> set (excludedKeys es)")
  case False
  then show ?thesis by (simp add: adjust_item_def Let_def)
next
  case True
  have "adjust_item es kf (adjust_item es kf it)
      = (adjust_item es kf it)\<lparr>score := Num 100,
          compliance := (case item.compliance (adjust_item es kf it) of
                           Str _ \<Rightarrow> Str str_compliant | _ \<Rightarrow> Num 100),
          issues := Some [], excluded := Some True,
          exclusionReason := Some (exclusion_reason es (itemKey kf it))\<rparr>"
    using True unfolding adjust_item_def [of es kf "adjust_item es kf it"]
    by (simp add: itemKey_adjust_item Let_def)
  also have "\<dots> = adjust_item es kf it"
    using True by (cases "item.compliance it") (simp_all add: adjust_item_def Let_def)
  finally show ?thesis .
qed

lemma adjustSection_idem:
  "adjustSection (adjustSection items es kf) es kf = adjustSection items es kf"
  by (cases items) (auto simp: adjustSection_def adjust_item_idem)

lemma adjust_if_idem: "adjust_if grp (adjust_if grp items kf) kf = adjust_if grp items kf"
  by (cases grp; cases items) (simp_all add: adjust_if_def adjustSection_Some adjust_item_idem)

lemma adjustDesignTokensDetail_idem:
  "adjustDesignTokensDetail (adjustDesignTokensDetail d es) es = adjustDesignTokensDetail d es"
  by (cases d) (auto simp: adjustDesignTokensDetail_def)

lemma adjustDesignTokensDetail_Some:
  "\<exists>d'. adjustDesignTokensDetail (Some d) es = Some d'"
  by (simp add: adjustDesignTokensDetail_def)

lemma adjust_detail_if_idem:
  "adjust_detail_if grp (adjust_detail_if grp d) = adjust_detail_if grp d"
proof (cases grp)
  case None
  then show ?thesis by (simp add: adjust_detail_if_def)
next
  case (Some es)
  show ?thesis
  proof (cases d)
    case None
    then show ?thesis by (simp add: adjust_detail_if_def Some)
  next
    case (Some x)
    obtain d' where d': "adjustDesignTokensDetail (Some x) es = Some d'"
      using adjustDesignTokensDetail_Some by blast
    have "adjustDesignTokensDetail (Some d') es = Some d'"
      using adjustDesignTokensDetail_idem [of "Some x" es] by (simp add: d')
    then show ?thesis
      by (simp add: adjust_detail_if_def \<open>grp = Some es\<close> Some d')
  qed
qed

lemma adjust_krdsCompliance_idem:
  "adjust_krdsCompliance g (adjust_krdsCompliance g kc) = adjust_krdsCompliance g kc"
  by (cases kc) (simp_all add: adjust_krdsCompliance_def adjust_if_idem adjust_detail_if_idem)

lemma adjust_sections_idem: "adjust_sections g (adjust_sections g r) = adjust_sections g r"
  by (simp add: adjust_sections_def adjust_if_idem adjust_krdsCompliance_idem)

lemma adjust_sections_ignores:
  "adjust_sections g (r\<lparr>overallScore := x, exceptionInfo := y\<rparr>)
     = (adjust_sections g r)\<lparr>overallScore := x, exceptionInfo := y\<rparr>"
  by (simp add: adjust_sections_def)

lemma calculateOverallScore_ignores:
  "calculateOverallScore (r\<lparr>overallScore := x, exceptionInfo := y\<rparr>) = calculateOverallScore r"
  by (simp add: calculateOverallScore_def)

lemma applyExceptions_twice:
  assumes "es \<noteq> []" and "applyExceptions r (Some es) cid = Inr r1"
  shows "applyExceptions r1 (Some es) cid =
           Inr (r1\<lparr>exceptionInfo :=
                      map_option (\<lambda>i. i\<lparr>originalScore := adjustedScore i, scoreDifference := 0\<rparr>)
                        (exceptionInfo r1)\<rparr>)"
proof -
  from assms obtain g where g: "groupExceptionsBySection es = Inr g"
    by (rule applyExceptions_Inr)
  have r1: "r1 = (adjust_sections g r)
            \<lparr>overallScore := calculateOverallScore (adjust_sections g r),
             exceptionInfo := Some
               \<lparr>applied = True, checklistId = cid, totalExceptions = length es,
                originalScore = overallScore r,
                adjustedScore = calculateOverallScore (adjust_sections g r),
                scoreDifference = calculateOverallScore (adjust_sections g r) - overallScore r,
                sections = object_keys g\<rparr>\<rparr>"
    using assms g by (simp add: applyExceptions_grouped)
  show ?thesis
    unfolding applyExceptions_grouped [OF assms(1) g]
    by (subst (1 2 3 4 5) r1)
       (simp add: adjust_sections_ignores adjust_sections_idem calculateOverallScore_ignores r1)
qed


text \<open>
  Claim C7, as amended.  For every analysis result, exception list and checklist id,
  applying the engine to its own output with the same exceptions returns that output
  again, except for two fields of the audit record: \<^verbatim>\<open>originalScore\<close> is now the
  adjusted score and \<^verbatim>\<open>scoreDifference\<close> is 0.  With an absent or empty list the
  output is returned as it is.
\<close>

theorem idempotent_except_audit_record:
  assumes "applyExceptions r es cid = Inr r1"
  shows "applyExceptions r1 es cid =
           Inr (case es of
                  None \<Rightarrow> r1
                | Some l \<Rightarrow>
                    if l = [] then r1
                    else r1\<lparr>exceptionInfo :=
                              map_option
                                (\<lambda>i. i\<lparr>originalScore := adjustedScore i, scoreDifference := 0\<rparr>)
                                (exceptionInfo r1)\<rparr>)"
proof (cases es)
  case None
  then show ?thesis by (simp add: applyExceptions_def)
next
  case (Some l)
  show ?thesis
  proof (cases "l = []")
    case True
    then show ?thesis by (simp add: Some applyExceptions_def)
  next
    case False
    then show ?thesis
      using assms applyExceptions_twice [of l r cid r1] by (simp add: Some)
  qed
qed

theorem idempotent_except_audit_record_witness:
  "applyExceptions sample_adjusted (Some [exception_colors]) (Some ''template-123'')
     = Inr (sample_adjusted\<lparr>exceptionInfo := Some
              \<lparr>applied = True, checklistId = Some ''template-123'', totalExceptions = 1,
               originalScore = 73, adjustedScore = 73, scoreDifference = 0,
               sections = [sec_designStyles]\<rparr>\<rparr>)"
  using idempotent_except_audit_record [OF sample_apply] by (simp add: sample_adjusted_def)

text \<open>
  The claim as stated fails: in the scenario the first application records the original
  score 65, the second one 73.
\<close>

theorem idempotence_counterexample:
  "applyExceptions sample_result (Some [exception_colors]) (Some ''template-123'')
     = Inr sample_adjusted
   \<and> map_option originalScore (info_of (Inr sample_adjusted)) = Some 65
   \<and> map_option originalScore
        (info_of (applyExceptions sample_adjusted (Some [exception_colors])
                    (Some ''template-123''))) = Some 73"
proof -
  have "applyExceptions sample_adjusted (Some [exception_colors]) (Some ''template-123'')
      = Inr (sample_adjusted\<lparr>exceptionInfo :=
               map_option (\<lambda>i. i\<lparr>originalScore := adjustedScore i, scoreDifference := 0\<rparr>)
                 (exceptionInfo sample_adjusted)\<rparr>)"
    using applyExceptions_twice [OF list.distinct(2) sample_apply] .
  then show ?thesis
    using sample_apply by (simp add: info_of_def sample_adjusted_def)
qed

section \<open>The compliance score after an override\<close>

lemma krdsCompliance_score_kept:
  assumes "applyExceptions r es cid = Inr r'"
  shows "map_option kc_score (krdsCompliance r') = map_option kc_score (krdsCompliance r)"
proof (cases "es = None \<or> es = Some []")
  case True
  then show ?thesis using assms by (auto simp: applyExceptions_def)
next
  case False
  then obtain l where l: "es = Some l" "l \<noteq> []" by (cases es) auto
  with assms obtain g where g: "groupExceptionsBySection l = Inr g"
    by (auto elim: applyExceptions_Inr)
  show ?thesis
    using assms l g
    by (cases "krdsCompliance r")
       (auto simp: applyExceptions_grouped adjust_sections_def adjust_krdsCompliance_def)
qed

text \<open>
  Claim C2.  After an override the overall score is recomputed, and the compliance score
  is not: in the scenario the result has overall score 73 and compliance score 65, the
  value both had in the input.
\<close>

theorem compliance_score_not_recomputed:
  "applyExceptions sample_result (Some [exception_colors]) (Some ''template-123'')
     = Inr sample_adjusted
   \<and> overallScore sample_adjusted = 73
   \<and> map_option kc_score (krdsCompliance sample_adjusted) = Some 65
   \<and> overallScore sample_result = 65
   \<and> map_option kc_score (krdsCompliance sample_result) = Some 65"
  using sample_apply by (simp add: sample_adjusted_def sample_result_def)

section \<open>Percentages\<close>

text \<open>
  The shift of a quotient is determined by two inequalities, so a percentage is evaluated
  without running the search.
\<close>

lemma binade_shift_from:
  assumes "0 < a" and "2 ^ 52 * b \<le> a * 2 ^ k" and "\<forall>i<k. a * 2 ^ i < 2 ^ 52 * b"
  shows "j \<le> k \<Longrightarrow> binade_shift a b j = k"
proof (induction "k - j" arbitrary: j)
  case 0
  then have "j = k" by simp
  then show ?case using assms(2) by (simp add: binade_shift.simps)
next
  case (Suc d)
  then have "j < k" by simp
  then have "\<not> 2 ^ 52 * b \<le> a * 2 ^ j"
    using assms(3) by (simp add: not_le)
  moreover have "binade_shift a b (j + 1) = k"
    using Suc by (intro Suc.hyps(1)) simp_all
  ultimately show ?case
    using assms(1) by (subst binade_shift.simps) simp
qed

lemma binade_shift_eq:
  assumes "0 < a" and "0 < k" and "2 ^ 52 * b \<le> a * 2 ^ k" and "a * 2 ^ k < 2 ^ 53 * b"
  shows "binade_shift a b 0 = k"
proof -
  have "a * 2 ^ i < 2 ^ 52 * b" if "i < k" for i
  proof -
    define x y z where "x = a * 2 ^ (k - 1)" and "y = a * 2 ^ i" and "z = a * 2 ^ k"
    have "i \<le> k - 1" using that by simp
    then have "(2::nat) ^ i \<le> 2 ^ (k - 1)" by (intro power_increasing) simp_all
    then have le: "y \<le> x" by (simp add: x_def y_def)
    have double: "2 * x = z"
      using assms(2) by (cases k) (simp_all add: x_def z_def)
    define w where "w = 2 ^ 52 * b"
    have "z < 2 * w" using assms(4) by (simp add: z_def w_def)
    with le double have "y < w" by arith
    then show ?thesis by (simp add: y_def w_def)
  qed
  then show ?thesis
    using binade_shift_from [OF assms(1,3), of 0] by simp
qed

lemma percent_eval:
  assumes "0 < p" and "0 < k" and "2 ^ 52 * t \<le> p * 2 ^ k" and "p * 2 ^ k < 2 ^ 53 * t"
    and "m = round_ties_even (p * 2 ^ k) t" and "0 < m"
    and "0 < k'" and "2 ^ 52 * 2 ^ k \<le> m * 100 * 2 ^ k'" and "m * 100 * 2 ^ k' < 2 ^ 53 * 2 ^ k"
  shows "percent p t
     = int ((2 * round_ties_even (m * 100 * 2 ^ k') (2 ^ k) + 2 ^ k') div (2 * 2 ^ k'))"
proof -
  have q: "double_of_quotient p t = (m, k)"
    using binade_shift_eq [OF assms(1-4)] assms(5) by (simp add: double_of_quotient_def)
  have "0 < m * 100" using assms(6) by simp
  then have "binade_shift (m * 100) (2 ^ k) 0 = k'"
    using assms(7-9) by (intro binade_shift_eq) simp_all
  then have "double_of_quotient (m * 100) (2 ^ k)
      = (round_ties_even (m * 100 * 2 ^ k') (2 ^ k), k')"
    by (simp add: double_of_quotient_def)
  with q show ?thesis by (simp add: percent_def)
qed

lemma percent_7_10: "percent 7 10 = 70"
  using percent_eval [of 7 53 10 6305039478318694 46] by (simp add: round_ties_even_def)

lemma percent_23_40: "percent 23 40 = 57"
  using percent_eval [of 23 53 40 5179139571476070 47] by (simp add: round_ties_even_def)


lemma round_ties_even_le:
  assumes "0 < b" and "a \<le> n * b"
  shows "round_ties_even a b \<le> n"
proof (cases "a div b < n")
  case True
  then show ?thesis by (simp add: round_ties_even_def Let_def)
next
  case False
  have "a div b \<le> (n * b) div b"
    using assms(2) by (rule div_le_mono)
  then have "a div b \<le> n"
    using assms(1) by simp
  with False have q: "a div b = n" by simp
  have "a = n * b"
  proof -
    have "n * b \<le> a" using q assms(1) by (metis mult.commute times_div_less_eq_dividend)
    with assms(2) show ?thesis by simp
  qed
  then have "a mod b = 0" by simp
  with q assms(1) show ?thesis by (simp add: round_ties_even_def Let_def)
qed

lemma percent_range:
  assumes "0 < t" and "p \<le> t"
  shows "0 \<le> percent p t \<and> percent p t \<le> 100"
proof -
  obtain m k where q: "double_of_quotient p t = (m, k)" by (cases "double_of_quotient p t")
  obtain m' k' where q': "double_of_quotient (m * 100) (2 ^ k) = (m', k')"
    by (cases "double_of_quotient (m * 100) (2 ^ k)")
  have m: "m \<le> 2 ^ k"
  proof -
    have "m = round_ties_even (p * 2 ^ k) t"
      using q by (auto simp: double_of_quotient_def Let_def)
    moreover have "p * 2 ^ k \<le> 2 ^ k * t" using assms(2) by (simp add: mult.commute)
    ultimately show ?thesis using round_ties_even_le [OF assms(1)] by simp
  qed
  have m': "m' \<le> 100 * 2 ^ k'"
  proof -
    have "m' = round_ties_even (m * 100 * 2 ^ k') (2 ^ k)"
      using q' by (auto simp: double_of_quotient_def Let_def)
    moreover have "m * 100 * 2 ^ k' \<le> (100 * 2 ^ k') * 2 ^ k"
      using m by (simp add: mult.commute mult.left_commute)
    ultimately show ?thesis
      using round_ties_even_le [of "2 ^ k" "m * 100 * 2 ^ k'" "100 * 2 ^ k'"] by simp
  qed
  have "(2 * m' + 2 ^ k') div (2 * 2 ^ k') \<le> 100"
  proof -
    define x :: nat where "x = 2 ^ k'"
    have "0 < x" by (simp add: x_def)
    have "m' \<le> 100 * x" using m' by (simp add: x_def)
    then have "2 * m' + x < 101 * (2 * x)" using \<open>0 < x\<close> by arith
    then have "(2 * m' + x) div (2 * x) < 101"
      using \<open>0 < x\<close> by (simp add: less_mult_imp_div_less)
    then show ?thesis by (simp add: x_def)
  qed
  then show ?thesis
    by (simp add: percent_def q q')
qed

lemma foldl_count_violation:
  "foldl count_violation categories vs c =
     (categories c)\<lparr>cnt_violations := cnt_violations (categories c) + length (bucket c vs)\<rparr>"
  by (induction vs arbitrary: categories) (simp_all add: count_violation_def bucket_def Let_def)

lemma foldl_count_pass:
  "foldl count_pass categories ps c =
     (categories c)\<lparr>cnt_passes := cnt_passes (categories c) + length (bucket c ps)\<rparr>"
  by (induction ps arbitrary: categories) (simp_all add: count_pass_def bucket_def Let_def)

lemma category_score_range: "0 \<le> category_score d \<and> category_score d \<le> 100"
  using percent_range [of "cnt_violations d + cnt_passes d" "cnt_passes d"]
  by (simp add: category_score_def Let_def)

lemma byCategory_value:
  "bucket_value (byCategory (generateKWCAGReport axe)) c =
     category_score \<lparr>cnt_violations = length (bucket c (or_empty (violations axe))),
                     cnt_passes = length (bucket c (or_empty (passes axe)))\<rparr>"
  by (cases c)
     (simp_all add: generateKWCAGReport_def bucket_value_def Let_def foldl_count_violation
        foldl_count_pass)

text \<open>
  Each of the two roundings moves its operand by at most one part in \<open>2 ^ 53\<close>, so the
  product is within \<open>300 / 2 ^ 53\<close> of \<open>100 * p / t\<close>, and the percentage differs from
  the exactly rounded one only when \<open>100 * p / t\<close> lies halfway between two integers.
\<close>

lemma binade_shift_ge: "0 < a \<Longrightarrow> 2 ^ 52 * b \<le> a * 2 ^ binade_shift a b j"
proof (induction a b j rule: binade_shift.induct)
  case (1 a b k)
  show ?case
  proof (cases "2 ^ 52 * b \<le> a * 2 ^ k")
    case True
    then show ?thesis by (subst binade_shift.simps) simp
  next
    case False
    then have "binade_shift a b k = binade_shift a b (k + 1)"
      using "1.prems" by (subst binade_shift.simps) simp
    then show ?thesis
      using "1.IH" "1.prems" False by simp
  qed
qed

lemma round_ties_even_error:
  assumes "0 < b"
  shows "\<bar>real (round_ties_even a b) - real a / real b\<bar> \<le> 1 / 2"
proof -
  define q r where "q = a div b" and "r = a mod b"
  have a: "real a = real q * real b + real r"
    unfolding q_def r_def by (metis div_mult_mod_eq of_nat_add of_nat_mult)
  have r: "r < b" using assms by (simp add: r_def)
  have b: "0 < real b" using assms by simp
  have quot: "real a / real b = real q + real r / real b"
    using b by (simp add: a field_simps)
  consider "2 * r < b" | "b < 2 * r" | "2 * r = b" by linarith
  then show ?thesis
  proof cases
    case 1
    then have "round_ties_even a b = q"
      by (simp add: round_ties_even_def Let_def q_def r_def)
    moreover have "real r / real b \<le> 1 / 2"
      using 1 b by (simp add: field_simps)
    ultimately show ?thesis by (simp add: quot)
  next
    case 2
    then have "round_ties_even a b = q + 1"
      by (simp add: round_ties_even_def Let_def q_def r_def)
    moreover have "1 / 2 \<le> real r / real b"
      using 2 b by (simp add: field_simps)
    moreover have "real r / real b \<le> 1"
      using r b by (simp add: field_simps)
    ultimately show ?thesis by (simp add: quot)
  next
    case 3
    then have either: "round_ties_even a b = q \<or> round_ties_even a b = q + 1"
      by (simp add: round_ties_even_def Let_def q_def r_def)
    have "real b = 2 * real r"
      using 3 by (metis of_nat_mult of_nat_numeral)
    then have half: "real r / real b = 1 / 2"
      using b by simp
    from either show ?thesis
    proof
      assume "round_ties_even a b = q"
      then show ?thesis unfolding quot half by simp
    next
      assume "round_ties_even a b = q + 1"
      then show ?thesis unfolding quot half by simp
    qed
  qed
qed

lemma double_of_quotient_error:
  assumes "0 < a" and "0 < b" and "double_of_quotient a b = (m, k)"
  shows "\<bar>real m / 2 ^ k - real a / real b\<bar> \<le> (real a / real b) / 2 ^ 53"
proof -
  define Q K :: real where "Q = real a / real b" and "K = 2 ^ k"
  define c :: real where "c = 2 ^ 52"
  have K: "0 < K" and c: "0 < c" and c53: "(2::real) ^ 53 = 2 * c"
    by (simp_all add: K_def c_def)
  have k: "k = binade_shift a b 0" and m: "m = round_ties_even (a * 2 ^ k) b"
    using assms(3) by (auto simp: double_of_quotient_def Let_def)
  have "2 ^ 52 * b \<le> a * 2 ^ k"
    unfolding k by (rule binade_shift_ge [OF assms(1)])
  then have "real (2 ^ 52 * b) \<le> real (a * 2 ^ k)"
    by (rule of_nat_mono)
  then have "c * real b \<le> real a * K"
    by (simp add: c_def K_def)
  then have big: "c \<le> Q * K"
    using assms(2) by (simp add: Q_def field_simps)
  have "\<bar>real m - real (a * 2 ^ k) / real b\<bar> \<le> 1 / 2"
    unfolding m by (rule round_ties_even_error [OF assms(2)])
  then have err: "\<bar>real m - Q * K\<bar> \<le> 1 / 2"
    by (simp add: Q_def K_def)
  have "real m / K - Q = (real m - Q * K) / K"
    using K by (simp add: field_simps)
  then have "\<bar>real m / K - Q\<bar> = \<bar>real m - Q * K\<bar> / K"
    using K by (simp add: abs_divide del: of_nat_mult)
  also have "\<dots> \<le> (1 / 2) / K"
    using err K by (intro divide_right_mono) simp_all
  also have "\<dots> \<le> Q / (2 * c)"
  proof -
    have "1 * (2 * c) \<le> Q * (2 * K)" using big by simp
    then show ?thesis
      using K c by (simp add: field_simps)
  qed
  finally show ?thesis
    unfolding c53 Q_def K_def .
qed


lemma percent_floor:
  assumes "double_of_quotient p t = (m, k)"
    and "double_of_quotient (m * 100) (2 ^ k) = (m', k')"
  shows "percent p t = \<lfloor>real m' / 2 ^ k' + 1 / 2\<rfloor>"
proof -
  have "real m' / 2 ^ k' + 1 / 2 = real (2 * m' + 2 ^ k') / real (2 * 2 ^ k')"
    by (simp add: field_simps)
  then have "\<lfloor>real m' / 2 ^ k' + 1 / 2\<rfloor> = int ((2 * m' + 2 ^ k') div (2 * 2 ^ k'))"
    by (simp only: floor_divide_of_nat_eq)
  then show ?thesis
    by (simp add: percent_def assms)
qed

lemma binade_shift_zero: "binade_shift 0 b j = j"
  by (subst binade_shift.simps) simp

lemma percent_zero: "percent 0 t = 0"
  by (simp add: percent_def double_of_quotient_def binade_shift_zero round_ties_even_def)

lemma percent_error:
  assumes "0 < p" and "p \<le> t"
  obtains x' where "percent p t = \<lfloor>x' + 1 / 2\<rfloor>"
    and "\<bar>x' - 100 * real p / real t\<bar> \<le> 300 / 2 ^ 53"
proof -
  have t: "0 < t" using assms by simp
  obtain m k where q: "double_of_quotient p t = (m, k)"
    by (cases "double_of_quotient p t")
  obtain m' k' where q': "double_of_quotient (m * 100) (2 ^ k) = (m', k')"
    by (cases "double_of_quotient (m * 100) (2 ^ k)")
  define Q F Y X' :: real
    where "Q = real p / real t" and "F = real m / 2 ^ k" and "Y = 100 * F"
      and "X' = real m' / 2 ^ k'"
  define u :: real where "u = 1 / 2 ^ 53"
  have u: "0 < u" "u \<le> 1" by (simp_all add: u_def)
  have Q: "0 < Q" "Q \<le> 1"
    using assms t by (simp_all add: Q_def)
  have e1: "\<bar>F - Q\<bar> \<le> Q * u"
    using double_of_quotient_error [OF assms(1) t q] by (simp add: F_def Q_def u_def)
  have F: "0 < F" "F \<le> 2"
  proof -
    have "Q * u < Q" using Q(1) by (simp add: u_def)
    with e1 show "0 < F" by linarith
    have "Q * u \<le> 1 * 1" using Q u by (intro mult_mono) simp_all
    with e1 Q(2) show "F \<le> 2" by linarith
  qed
  have m: "0 < m"
    using F(1) by (cases "m = 0") (simp_all add: F_def)
  have yeq: "real (m * 100) / real ((2::nat) ^ k) = Y"
    by (simp add: Y_def F_def)
  have pos: "0 < m * 100" "0 < (2::nat) ^ k"
    using m by simp_all
  have "\<bar>X' - Y\<bar> \<le> Y / 2 ^ 53"
    using double_of_quotient_error [OF pos q'] unfolding yeq X'_def .
  then have e2: "\<bar>X' - Y\<bar> \<le> Y * u"
    by (simp add: u_def)
  have "Y * u \<le> 200 * u"
    using F(2) u(1) by (simp add: Y_def)
  moreover have "\<bar>Y - 100 * Q\<bar> \<le> 100 * u"
  proof -
    have "Y - 100 * Q = 100 * (F - Q)"
      by (simp add: Y_def algebra_simps)
    then have "\<bar>Y - 100 * Q\<bar> = 100 * \<bar>F - Q\<bar>"
      by (simp only: abs_mult abs_numeral)
    also have "\<dots> \<le> 100 * (Q * u)" using e1 by simp
    also have "\<dots> \<le> 100 * (1 * u)"
      using Q(2) u(1) by (intro mult_left_mono mult_right_mono) simp_all
    finally show ?thesis by simp
  qed
  ultimately have "\<bar>X' - 100 * Q\<bar> \<le> 300 * u"
    using e2 by linarith
  then have "\<bar>X' - 100 * real p / real t\<bar> \<le> 300 / 2 ^ 53"
    by (simp add: Q_def u_def)
  moreover have "percent p t = \<lfloor>X' + 1 / 2\<rfloor>"
    unfolding X'_def by (rule percent_floor [OF q q'])
  ultimately show ?thesis
    using that by blast
qed

lemma percent_near_exact:
  assumes "0 < t" and "p \<le> t" and "t \<le> 2 ^ 33"
  shows "Math_round_div (100 * int p) (int t) - 1 \<le> percent p t
    \<and> percent p t \<le> Math_round_div (100 * int p) (int t)
    \<and> ((200 * p + t) mod (2 * t) \<noteq> 0 \<longrightarrow>
         percent p t = Math_round_div (100 * int p) (int t))"
proof (cases "p = 0")
  case True
  have "Math_round_div 0 (int t) = 0"
    using assms(1) by (simp add: Math_round_div_def)
  with True show ?thesis by (simp add: percent_zero)
next
  case False
  then obtain x' where x': "percent p t = \<lfloor>x' + 1 / 2\<rfloor>"
    and err: "\<bar>x' - 100 * real p / real t\<bar> \<le> 300 / 2 ^ 53"
    using percent_error [of p t] assms(2) by auto
  define E where "E = Math_round_div (100 * int p) (int t)"
  define r where "r = (200 * p + t) mod (2 * t)"
  define X :: real where "X = 100 * real p / real t"
  define h :: real where "h = 1 / (2 * real t)"
  have tr: "0 < real t" using assms(1) by simp
  have E: "int ((200 * p + t) div (2 * t)) = E"
    by (simp add: E_def Math_round_div_def zdiv_int)
  have "200 * p + t = (200 * p + t) div (2 * t) * (2 * t) + r"
    unfolding r_def by (rule div_mult_mod_eq [symmetric])
  then have "real (200 * p + t) = real ((200 * p + t) div (2 * t) * (2 * t) + r)"
    by simp
  then have "200 * real p + real t = real_of_int E * (2 * real t) + real r"
    by (simp add: E [symmetric])
  then have split: "X + 1 / 2 = real_of_int E + real r * h"
    using tr by (simp add: X_def h_def field_simps)
  have r: "r < 2 * t" using assms(1) by (simp add: r_def)
  then have "r + 1 \<le> 2 * t" by simp
  then have "real (r + 1) \<le> real (2 * t)" by (rule of_nat_mono)
  then have "real r \<le> 2 * real t - 1" by simp
  then have "real r * h \<le> (2 * real t - 1) * h"
    using tr by (intro mult_right_mono) (simp_all add: h_def)
  also have "(2 * real t - 1) * h = 1 - h"
    using tr by (simp add: h_def field_simps)
  finally have r_hi: "real r * h \<le> 1 - h" .
  have r_lo: "0 \<le> real r * h"
    using tr by (simp add: h_def)
  have "real t \<le> real ((2::nat) ^ 33)"
    using assms(3) by (rule of_nat_mono)
  then have t33: "real t \<le> 2 ^ 33" by simp
  have "300 / 2 ^ 53 < (1 / 2 ^ 34 :: real)" by simp
  also have "(1 / 2 ^ 34 :: real) \<le> h"
  proof -
    have "2 * real t \<le> 2 ^ 34" using t33 by simp
    then show ?thesis
      unfolding h_def using tr by (intro divide_left_mono) simp_all
  qed
  finally have "300 / 2 ^ 53 < h" .
  with err have close: "\<bar>x' - X\<bar> < h"
    by (simp add: X_def)
  have h1: "h \<le> 1" "0 < h"
    using assms(1) tr by (simp_all add: h_def field_simps)
  have upper: "percent p t \<le> E"
  proof -
    have "x' + 1 / 2 < real_of_int E + 1"
      using close split r_hi by linarith
    then have "x' + 1 / 2 < real_of_int (E + 1)" by simp
    then have "\<lfloor>x' + 1 / 2\<rfloor> < E + 1"
      by (simp only: floor_less_iff)
    then show ?thesis by (simp add: x')
  qed
  have lower: "E - 1 \<le> percent p t"
  proof -
    have "real_of_int E - 1 \<le> x' + 1 / 2"
      using close split h1 r_lo by linarith
    then have "real_of_int (E - 1) \<le> x' + 1 / 2" by simp
    then show ?thesis by (simp only: x' le_floor_iff)
  qed
  have exact: "percent p t = E" if "r \<noteq> 0"
  proof -
    from that have "1 \<le> real r" by simp
    then have "h \<le> real r * h" using h1(2) by simp
    then have "real_of_int E \<le> x' + 1 / 2"
      using close split by linarith
    then have "E \<le> percent p t" by (simp only: x' le_floor_iff)
    with upper show ?thesis by simp
  qed
  show ?thesis
    using upper lower exact by (simp add: E_def r_def)
qed

text \<open>
  The rounded quotient of two integers is the same on doubles and on integers, for a
  dividend below \<open>2 ^ 52\<close>: this is what the integer model of the two aggregators rests
  on.
\<close>

lemma round_ties_even_multiple: "0 < b \<Longrightarrow> round_ties_even (c * b) b = c"
  by (simp add: round_ties_even_def)

lemma binade_shift_positive:
  assumes "0 < a" and "a < 2 ^ 52 * b"
  shows "0 < binade_shift a b 0"
proof -
  have "binade_shift a b 0 = binade_shift a b (0 + 1)"
    using assms by (subst binade_shift.simps) simp
  moreover have "1 \<le> binade_shift a b j" if "1 \<le> j" for j
    using that
  proof (induction a b j rule: binade_shift.induct)
    case (1 a b k)
    show ?case
    proof (cases "a = 0 \<or> 2 ^ 52 * b \<le> a * 2 ^ k")
      case True
      then show ?thesis using "1.prems" by (subst binade_shift.simps) simp
    next
      case False
      then have "binade_shift a b k = binade_shift a b (k + 1)"
        by (subst binade_shift.simps) simp
      then show ?thesis using "1.IH" [OF False] "1.prems" by simp
    qed
  qed
  ultimately show ?thesis
    by (metis One_nat_def Suc_le_eq add_0 le_refl)
qed

lemma js_round_quotient_exact:
  assumes "0 < n" and "t < 2 ^ 52"
  shows "js_round_quotient t n = Math_round_div (int t) (int n)"
proof (cases "t = 0")
  case True
  have "Math_round_div 0 (int n) = 0"
    using assms(1) by (simp add: Math_round_div_def)
  with True show ?thesis
    by (simp add: js_round_quotient_def double_of_quotient_def binade_shift_zero
        round_ties_even_def)
next
  case False
  then have t: "0 < t" by simp
  obtain m k where q: "double_of_quotient t n = (m, k)"
    by (cases "double_of_quotient t n")
  have k: "k = binade_shift t n 0" and m: "m = round_ties_even (t * 2 ^ k) n"
    using q by (auto simp: double_of_quotient_def Let_def)
  define e r where "e = (2 * t + n) div (2 * n)" and "r = (2 * t + n) mod (2 * n)"
  define x x' h :: real
    where "x = real t / real n" and "x' = real m / 2 ^ k" and "h = 1 / (2 * real n)"
  have nr: "0 < real n" using assms(1) by simp
  have h: "0 < h" using nr by (simp add: h_def)
  have E: "int e = Math_round_div (int t) (int n)"
    by (simp add: e_def Math_round_div_def zdiv_int)
  have js: "js_round_quotient t n = \<lfloor>x' + 1 / 2\<rfloor>"
  proof -
    have "x' + 1 / 2 = real (2 * m + 2 ^ k) / real (2 * 2 ^ k)"
      by (simp add: x'_def field_simps)
    then have "\<lfloor>x' + 1 / 2\<rfloor> = int ((2 * m + 2 ^ k) div (2 * 2 ^ k))"
      by (simp only: floor_divide_of_nat_eq)
    then show ?thesis by (simp add: js_round_quotient_def q)
  qed
  have "2 * t + n = e * (2 * n) + r"
    unfolding e_def r_def by (rule div_mult_mod_eq [symmetric])
  then have whole: "real (2 * t + n) = real (e * (2 * n) + r)"
    by simp
  then have "2 * real t + real n = real e * (2 * real n) + real r"
    by simp
  then have split: "x + 1 / 2 = real e + real r * h"
    using nr by (simp add: x_def h_def field_simps)
  have "r < 2 * n" using assms(1) by (simp add: r_def)
  then have "r + 1 \<le> 2 * n" by simp
  then have "real (r + 1) \<le> real (2 * n)" by (rule of_nat_mono)
  then have "real r \<le> 2 * real n - 1" by simp
  then have "real r * h \<le> (2 * real n - 1) * h"
    using h by (intro mult_right_mono) simp_all
  also have "(2 * real n - 1) * h = 1 - h"
    using nr by (simp add: h_def field_simps)
  finally have r_hi: "real r * h \<le> 1 - h" .
  have err: "\<bar>x' - x\<bar> \<le> x / 2 ^ 53"
    using double_of_quotient_error [OF t assms(1) q] by (simp add: x_def x'_def)
  have "real t < real ((2::nat) ^ 52)"
    using assms(2) by (simp only: of_nat_less_iff)
  then have "real t < 2 ^ 52" by simp
  then have "real t / 2 ^ 53 < 1 / 2" by simp
  then have "(real t / 2 ^ 53) / real n < (1 / 2) / real n"
    using nr by (intro divide_strict_right_mono)
  then have "x / 2 ^ 53 < h"
    by (simp add: x_def h_def)
  with err have close: "\<bar>x' - x\<bar> < h" by simp
  have upper: "\<lfloor>x' + 1 / 2\<rfloor> \<le> int e"
  proof -
    have "x' + 1 / 2 < real e + 1"
      using close split r_hi by linarith
    then have "x' + 1 / 2 < real_of_int (int e + 1)" by simp
    then have "\<lfloor>x' + 1 / 2\<rfloor> < int e + 1" by (simp only: floor_less_iff)
    then show ?thesis by simp
  qed
  have lower: "int e \<le> \<lfloor>x' + 1 / 2\<rfloor>"
  proof (cases "r = 0")
    case False
    then have "1 \<le> real r" by simp
    then have "h \<le> real r * h" using h by simp
    then have "real e \<le> x' + 1 / 2"
      using close split by linarith
    then have "real_of_int (int e) \<le> x' + 1 / 2" by simp
    then show ?thesis by (simp only: le_floor_iff)
  next
    case True
    then have even: "2 * t + n = e * (2 * n)"
      using \<open>2 * t + n = e * (2 * n) + r\<close> by simp
    have "0 < k"
      unfolding k using t assms
      by (intro binade_shift_positive) (simp_all add: less_le_trans [of t "2 ^ 52" "2 ^ 52 * n"])
    then obtain k0 where k0: "k = Suc k0" by (cases k) simp_all
    have "0 < e"
      using even t assms(1) by (cases "e = 0") simp_all
    define c where "c = (2 * e - 1) * 2 ^ k0"
    have odd: "(2 * e - 1) * n = 2 * t"
      using even \<open>0 < e\<close> by (simp add: algebra_simps diff_mult_distrib2)
    have "t * 2 ^ k = (2 * t) * 2 ^ k0"
      by (simp add: k0)
    also have "\<dots> = ((2 * e - 1) * n) * 2 ^ k0"
      by (simp only: odd)
    also have "\<dots> = c * n"
      by (simp only: c_def mult_ac)
    finally have "t * 2 ^ k = c * n" .
    then have "m = c"
      using m assms(1) by (simp add: round_ties_even_multiple)
    have "real (2 * e - 1) = 2 * real e - 1"
      using \<open>0 < e\<close> by (simp add: of_nat_diff)
    then have "x' + 1 / 2 = real e"
      by (simp add: x'_def \<open>m = c\<close> c_def k0 field_simps)
    then show ?thesis by simp
  qed
  show ?thesis
    using upper lower by (simp add: js E [symmetric])
qed

section \<open>The Category Aggregator\<close>

lemma rounded_mean_code:
  "vs \<noteq> [] \<Longrightarrow> rounded_mean vs = Math_round_div (sum_list vs) (int (length vs))"
  using Math_round_div_floor [of "int (length vs)" "sum_list vs"]
  by (simp add: rounded_mean_def)

lemma foldl_contribution:
  "foldl (\<lambda>sum it. sum + f it) a xs = a + sum_list (map f xs)" for a :: int
  by (induction xs arbitrary: a) simp_all

lemma foldl_plus: "foldl (\<lambda>a b. a + b) a xs = a + sum_list xs" for a :: int
  by (induction xs arbitrary: a) simp_all

lemma calculateCategoryScore_mean:
  "xs \<noteq> [] \<Longrightarrow> calculateCategoryScore (Some xs) = rounded_mean (map item_contribution xs)"
  by (simp add: calculateCategoryScore_def rounded_mean_code foldl_contribution)

lemma analyzer_calculateCategoryScore_mean:
  "ys \<noteq> [] \<Longrightarrow>
     analyzer_calculateCategoryScore (Some ys) = rounded_mean (map analyzer_contribution ys)"
  by (simp add: analyzer_calculateCategoryScore_def rounded_mean_code foldl_contribution)

lemma item_contribution_cases:
  "item_contribution it =
     (if truthy (item.score it) then (case item.score it of Num n \<Rightarrow> n | _ \<Rightarrow> 0)
      else (case item.compliance it of Num c \<Rightarrow> c | _ \<Rightarrow> 0))"
  by (cases "item.score it"; cases "item.compliance it")
     (auto simp: item_contribution_def js_or_def)

lemma analyzer_contribution_cases:
  "analyzer_contribution y = (case analyzer_item.score y of None \<Rightarrow> 0 | Some n \<Rightarrow> n)"
  by (simp add: analyzer_contribution_def score_or_zero_def split: option.splits)

text \<open>
  The integer arithmetic of the model is the double arithmetic of the code: for a non-empty
  list of integers with a total in \<open>[0, 2 ^ 52)\<close>, the rounded mean is what
  \<^verbatim>\<open>Math.round(total / length)\<close> computes on doubles.
\<close>

lemma rounded_mean_double:
  assumes "vs \<noteq> []" and "0 \<le> sum_list vs" and "sum_list vs < 2 ^ 52"
  shows "rounded_mean vs = js_round_quotient (nat (sum_list vs)) (length vs)"
proof -
  have n: "0 < length vs" using assms(1) by simp
  have "int (nat (sum_list vs)) < int (2 ^ 52)"
    using assms(2,3) by simp
  then have t: "nat (sum_list vs) < 2 ^ 52"
    by (simp only: of_nat_less_iff)
  show ?thesis
    unfolding js_round_quotient_exact [OF n t] rounded_mean_code [OF assms(1)]
    using assms(2) by simp
qed

lemma sum_list_nonneg_map:
  fixes f :: "'a \<Rightarrow> int"
  shows "list_all (\<lambda>x. 0 \<le> f x) xs \<Longrightarrow> 0 \<le> sum_list (map f xs)"
  by (induction xs) simp_all

lemma calculateCategoryScore_double:
  assumes "xs \<noteq> []" and "list_all (\<lambda>it. 0 \<le> item_contribution it) xs"
    and "sum_list (map item_contribution xs) < 2 ^ 52"
  shows "calculateCategoryScore (Some xs)
     = js_round_quotient (nat (sum_list (map item_contribution xs))) (length xs)"
  using rounded_mean_double [of "map item_contribution xs"] assms
    sum_list_nonneg_map [of item_contribution xs]
  by (simp add: calculateCategoryScore_mean)

lemma analyzer_calculateCategoryScore_double:
  assumes "ys \<noteq> []" and "list_all (\<lambda>y. 0 \<le> analyzer_contribution y) ys"
    and "sum_list (map analyzer_contribution ys) < 2 ^ 52"
  shows "analyzer_calculateCategoryScore (Some ys)
     = js_round_quotient (nat (sum_list (map analyzer_contribution ys))) (length ys)"
  using rounded_mean_double [of "map analyzer_contribution ys"] assms
    sum_list_nonneg_map [of analyzer_contribution ys]
  by (simp add: analyzer_calculateCategoryScore_mean)

lemma Math_round_div_mono: "0 < n \<Longrightarrow> s \<le> t \<Longrightarrow> Math_round_div s n \<le> Math_round_div t n"
  unfolding Math_round_div_def by (intro zdiv_mono1) simp_all

lemma Math_round_div_const: "0 < n \<Longrightarrow> Math_round_div (c * n) n = c"
proof -
  assume n: "0 < n"
  have eq: "2 * (c * n) + n = n + c * (2 * n)"
    by (simp add: algebra_simps)
  have "n div (2 * n) = 0"
    using n by (intro div_pos_pos_trivial) simp_all
  then show ?thesis
    unfolding Math_round_div_def eq using n by simp
qed

lemma sum_list_bounds:
  fixes f :: "'a \<Rightarrow> int"
  assumes "list_all (\<lambda>x. lo \<le> f x \<and> f x \<le> hi) xs"
  shows "lo * int (length xs) \<le> sum_list (map f xs) \<and> sum_list (map f xs) \<le> hi * int (length xs)"
  using assms by (induction xs) (auto simp: algebra_simps)

lemma Math_round_div_bounds:
  assumes "0 < n" "lo * n \<le> t" "t \<le> hi * n"
  shows "lo \<le> Math_round_div t n \<and> Math_round_div t n \<le> hi"
  using Math_round_div_mono [OF assms(1,2)] Math_round_div_mono [OF assms(1,3)]
  by (simp add: Math_round_div_const assms(1))

lemma contribution_is_score:
  "integer_score_0_100 it \<Longrightarrow> no_compliance_beside_zero it
     \<Longrightarrow> item_contribution it = score_value it"
  by (cases "item.score it"; cases "item.compliance it")
     (auto simp: integer_score_0_100_def no_compliance_beside_zero_def item_contribution_def
        js_or_def score_value_def split: if_splits)

lemma score_value_range:
  "list_all integer_score_0_100 xs \<Longrightarrow> list_all (\<lambda>it. 0 \<le> score_value it \<and> score_value it \<le> 100) xs"
  by (induction xs) (auto simp: integer_score_0_100_def score_value_def split: jsval.splits)

lemma analyzer_contribution_range:
  "list_all analyzer_score_0_100 ys \<Longrightarrow>
     list_all (\<lambda>y. 0 \<le> analyzer_contribution y \<and> analyzer_contribution y \<le> 100) ys"
  by (induction ys)
     (auto simp: analyzer_score_0_100_def analyzer_contribution_cases split: option.splits)

text \<open>
  A non-empty list of fewer than \<open>2 ^ 32\<close> values in \<open>[0,100]\<close>: the total is below
  \<open>2 ^ 52\<close>, the rounded mean lies in \<open>[0,100]\<close> and is the double result.
\<close>

lemma mean_of_range:
  fixes f :: "'a \<Rightarrow> int"
  assumes "xs \<noteq> []" and "length xs < 2 ^ 32"
    and "list_all (\<lambda>x. 0 \<le> f x \<and> f x \<le> 100) xs"
  shows "0 \<le> rounded_mean (map f xs) \<and> rounded_mean (map f xs) \<le> 100
     \<and> rounded_mean (map f xs) = js_round_quotient (nat (sum_list (map f xs))) (length xs)"
proof -
  have n: "0 < int (length xs)" using assms(1) by simp
  have b: "0 * int (length xs) \<le> sum_list (map f xs)
      \<and> sum_list (map f xs) \<le> 100 * int (length xs)"
    using sum_list_bounds [OF assms(3)] .
  have "int (length xs) < int (2 ^ 32)"
    using assms(2) by (simp only: of_nat_less_iff)
  then have "100 * int (length xs) < 2 ^ 52"
    by simp
  with b have lt: "sum_list (map f xs) < 2 ^ 52" and ge: "0 \<le> sum_list (map f xs)"
    by simp_all
  have ne: "map f xs \<noteq> []" using assms(1) by simp
  have "rounded_mean (map f xs) = js_round_quotient (nat (sum_list (map f xs))) (length xs)"
    using rounded_mean_double [OF ne ge lt] by simp
  moreover have "0 \<le> rounded_mean (map f xs) \<and> rounded_mean (map f xs) \<le> 100"
    using Math_round_div_bounds [OF n, of 0 "sum_list (map f xs)" 100] b assms(1)
    by (simp add: rounded_mean_code)
  ultimately show ?thesis by simp
qed

lemma eval_items:
  "item.score item_colors = Num 40" "item.score item_typography = Num 70"
  "item.compliance item_colors = Undefined" "item.compliance item_typography = Undefined"
  by (simp_all add: item_colors_def item_typography_def empty_item_def)

text \<open>
  Claim C3, as amended.  Both aggregators return 0 for an absent or empty sequence.  For a
  non-empty sequence whose contributions are non-negative integers with a total below
  \<open>2 ^ 52\<close>, each returns the rounded mean of the contributions, halves rounded up, which is
  what the code's \<^verbatim>\<open>Math.round(total / length)\<close> computes on doubles.  In the exception
  handler the contribution of an item is its score when the score is truthy and a number,
  0 when the score is truthy and not a number, and otherwise (score absent, null, 0 or
  empty) its compliance when that is a number, else 0.  In the analyzer, whose items have a
  score that is a number or absent, the contribution is the score, an absent score
  counting 0; the compliance is never read.  For a non-empty sequence of fewer than
  \<open>2 ^ 32\<close> items with integer scores in [0,100] the analyzer's output is the rounded mean of
  the scores and lies in [0,100]; so does the exception handler's when no score of 0
  stands beside a non-zero numeric compliance.
\<close>

theorem category_aggregator:
  fixes xs :: "item list" and ys :: "'a analyzer_item_scheme list"
    and y :: "'b analyzer_item_scheme"
  shows
  "calculateCategoryScore None = 0 \<and> calculateCategoryScore (Some []) = 0
   \<and> analyzer_calculateCategoryScore (None :: 'a analyzer_item_scheme list option) = 0
   \<and> analyzer_calculateCategoryScore (Some ([] :: 'a analyzer_item_scheme list)) = 0
   \<and> item_contribution it =
       (if truthy (item.score it) then (case item.score it of Num n \<Rightarrow> n | _ \<Rightarrow> 0)
        else (case item.compliance it of Num c \<Rightarrow> c | _ \<Rightarrow> 0))
   \<and> analyzer_contribution y = (case analyzer_item.score y of None \<Rightarrow> 0 | Some n \<Rightarrow> n)
   \<and> (xs \<noteq> [] \<and> list_all (\<lambda>it. 0 \<le> item_contribution it) xs
        \<and> sum_list (map item_contribution xs) < 2 ^ 52 \<longrightarrow>
        calculateCategoryScore (Some xs) = rounded_mean (map item_contribution xs)
        \<and> calculateCategoryScore (Some xs)
            = js_round_quotient (nat (sum_list (map item_contribution xs))) (length xs))
   \<and> (ys \<noteq> [] \<and> list_all (\<lambda>y. 0 \<le> analyzer_contribution y) ys
        \<and> sum_list (map analyzer_contribution ys) < 2 ^ 52 \<longrightarrow>
        analyzer_calculateCategoryScore (Some ys) = rounded_mean (map analyzer_contribution ys)
        \<and> analyzer_calculateCategoryScore (Some ys)
            = js_round_quotient (nat (sum_list (map analyzer_contribution ys))) (length ys))
   \<and> (ys \<noteq> [] \<and> length ys < 2 ^ 32 \<and> list_all analyzer_score_0_100 ys \<longrightarrow>
        analyzer_calculateCategoryScore (Some ys) = rounded_mean (map analyzer_contribution ys)
        \<and> analyzer_calculateCategoryScore (Some ys)
            = js_round_quotient (nat (sum_list (map analyzer_contribution ys))) (length ys)
        \<and> 0 \<le> analyzer_calculateCategoryScore (Some ys)
        \<and> analyzer_calculateCategoryScore (Some ys) \<le> 100)
   \<and> (xs \<noteq> [] \<and> length xs < 2 ^ 32 \<and> list_all integer_score_0_100 xs
        \<and> list_all no_compliance_beside_zero xs \<longrightarrow>
        calculateCategoryScore (Some xs) = rounded_mean (map score_value xs)
        \<and> calculateCategoryScore (Some xs)
            = js_round_quotient (nat (sum_list (map score_value xs))) (length xs)
        \<and> 0 \<le> calculateCategoryScore (Some xs) \<and> calculateCategoryScore (Some xs) \<le> 100)"
proof -
  have empty: "calculateCategoryScore None = 0 \<and> calculateCategoryScore (Some []) = 0"
    by (simp add: calculateCategoryScore_def)
  have empty_analyzer:
    "analyzer_calculateCategoryScore (None :: 'a analyzer_item_scheme list option) = 0
     \<and> analyzer_calculateCategoryScore (Some ([] :: 'a analyzer_item_scheme list)) = 0"
    by (simp add: analyzer_calculateCategoryScore_def)
  have contribution:
    "analyzer_contribution y = (case analyzer_item.score y of None \<Rightarrow> 0 | Some n \<Rightarrow> n)"
    by (rule analyzer_contribution_cases)
  have same: "map item_contribution xs = map score_value xs"
    if "list_all integer_score_0_100 xs" "list_all no_compliance_beside_zero xs"
    using that by (induction xs) (auto simp: contribution_is_score)
  have handler: "xs \<noteq> [] \<and> list_all (\<lambda>it. 0 \<le> item_contribution it) xs
      \<and> sum_list (map item_contribution xs) < 2 ^ 52 \<longrightarrow>
      calculateCategoryScore (Some xs) = rounded_mean (map item_contribution xs)
      \<and> calculateCategoryScore (Some xs)
          = js_round_quotient (nat (sum_list (map item_contribution xs))) (length xs)"
    using calculateCategoryScore_mean [of xs] calculateCategoryScore_double [of xs] by blast
  have analyzer: "ys \<noteq> [] \<and> list_all (\<lambda>y. 0 \<le> analyzer_contribution y) ys
      \<and> sum_list (map analyzer_contribution ys) < 2 ^ 52 \<longrightarrow>
      analyzer_calculateCategoryScore (Some ys) = rounded_mean (map analyzer_contribution ys)
      \<and> analyzer_calculateCategoryScore (Some ys)
          = js_round_quotient (nat (sum_list (map analyzer_contribution ys))) (length ys)"
    using analyzer_calculateCategoryScore_mean [of ys]
      analyzer_calculateCategoryScore_double [of ys] by blast
  have analyzer_range: "ys \<noteq> [] \<and> length ys < 2 ^ 32 \<and> list_all analyzer_score_0_100 ys \<longrightarrow>
      analyzer_calculateCategoryScore (Some ys) = rounded_mean (map analyzer_contribution ys)
      \<and> analyzer_calculateCategoryScore (Some ys)
          = js_round_quotient (nat (sum_list (map analyzer_contribution ys))) (length ys)
      \<and> 0 \<le> analyzer_calculateCategoryScore (Some ys)
      \<and> analyzer_calculateCategoryScore (Some ys) \<le> 100"
  proof (intro impI, elim conjE)
    assume h: "ys \<noteq> []" "length ys < 2 ^ 32" "list_all analyzer_score_0_100 ys"
    show "analyzer_calculateCategoryScore (Some ys) = rounded_mean (map analyzer_contribution ys)
      \<and> analyzer_calculateCategoryScore (Some ys)
          = js_round_quotient (nat (sum_list (map analyzer_contribution ys))) (length ys)
      \<and> 0 \<le> analyzer_calculateCategoryScore (Some ys)
      \<and> analyzer_calculateCategoryScore (Some ys) \<le> 100"
      unfolding analyzer_calculateCategoryScore_mean [OF h(1)]
      using mean_of_range [OF h(1,2) analyzer_contribution_range [OF h(3)]] by simp
  qed
  have handler_scores: "xs \<noteq> [] \<and> length xs < 2 ^ 32 \<and> list_all integer_score_0_100 xs
      \<and> list_all no_compliance_beside_zero xs \<longrightarrow>
      calculateCategoryScore (Some xs) = rounded_mean (map score_value xs)
      \<and> calculateCategoryScore (Some xs)
          = js_round_quotient (nat (sum_list (map score_value xs))) (length xs)
      \<and> 0 \<le> calculateCategoryScore (Some xs) \<and> calculateCategoryScore (Some xs) \<le> 100"
  proof (intro impI, elim conjE)
    assume h: "xs \<noteq> []" "length xs < 2 ^ 32" "list_all integer_score_0_100 xs"
      "list_all no_compliance_beside_zero xs"
    show "calculateCategoryScore (Some xs) = rounded_mean (map score_value xs)
      \<and> calculateCategoryScore (Some xs)
          = js_round_quotient (nat (sum_list (map score_value xs))) (length xs)
      \<and> 0 \<le> calculateCategoryScore (Some xs) \<and> calculateCategoryScore (Some xs) \<le> 100"
      unfolding calculateCategoryScore_mean [OF h(1)] same [OF h(3,4)]
      using mean_of_range [OF h(1,2) score_value_range [OF h(3)]] by simp
  qed
  show ?thesis
    using empty empty_analyzer item_contribution_cases [of it] contribution handler analyzer
      analyzer_range handler_scores
    by (intro conjI) blast+
qed

theorem category_aggregator_witness:
  "calculateCategoryScore (Some [item_colors, item_typography]) = 55
   \<and> analyzer_calculateCategoryScore
       (Some [\<lparr>analyzer_item.score = Some 40\<rparr>, \<lparr>analyzer_item.score = Some 70\<rparr>]) = 55
   \<and> js_round_quotient 110 2 = 55
   \<and> item_contribution item_colors = 40
   \<and> analyzer_contribution \<lparr>analyzer_item.score = Some 40\<rparr> = 40"
proof -
  let ?xs = "[item_colors, item_typography]"
  let ?ys = "[\<lparr>analyzer_item.score = Some 40\<rparr>, \<lparr>analyzer_item.score = Some 70\<rparr>]"
  have c: "map item_contribution ?xs = [40, 70]" "map score_value ?xs = [40, 70]"
    "map analyzer_contribution ?ys = [40, 70]"
    by (simp_all add: item_contribution_def js_or_def score_value_def eval_items
        analyzer_contribution_def score_or_zero_def)
  have m: "rounded_mean [40, 70] = 55"
    by (simp add: rounded_mean_code Math_round_div_def)
  have s: "nat (sum_list (map item_contribution ?xs)) = 110" "length ?xs = 2"
    unfolding c by simp_all
  have hx: "?xs \<noteq> []" "length ?xs < 2 ^ 32" "list_all integer_score_0_100 ?xs"
    "list_all no_compliance_beside_zero ?xs"
    "list_all (\<lambda>it. 0 \<le> item_contribution it) ?xs"
    "sum_list (map item_contribution ?xs) < 2 ^ 52"
    by (simp_all add: integer_score_0_100_def no_compliance_beside_zero_def eval_items
        item_contribution_def js_or_def)
  have hy: "?ys \<noteq> []" "length ?ys < 2 ^ 32" "list_all analyzer_score_0_100 ?ys"
    "list_all (\<lambda>y. 0 \<le> analyzer_contribution y) ?ys"
    "sum_list (map analyzer_contribution ?ys) < 2 ^ 52"
    by (simp_all add: analyzer_score_0_100_def analyzer_contribution_def score_or_zero_def)
  note t = category_aggregator [of item_colors "\<lparr>analyzer_item.score = Some 40\<rparr>" ?xs ?ys]
  from t hx have x1: "calculateCategoryScore (Some ?xs) = rounded_mean (map score_value ?xs)"
    by blast
  from t hx have x2: "calculateCategoryScore (Some ?xs)
      = js_round_quotient (nat (sum_list (map item_contribution ?xs))) (length ?xs)"
    by blast
  from t hy have y1: "analyzer_calculateCategoryScore (Some ?ys)
      = rounded_mean (map analyzer_contribution ?ys)"
    by blast
  from t have i: "item_contribution item_colors =
       (if truthy (item.score item_colors)
        then (case item.score item_colors of Num n \<Rightarrow> n | _ \<Rightarrow> 0)
        else (case item.compliance item_colors of Num c \<Rightarrow> c | _ \<Rightarrow> 0))"
    by blast
  from t have a: "analyzer_contribution \<lparr>analyzer_item.score = Some 40\<rparr>
      = (case analyzer_item.score \<lparr>analyzer_item.score = Some 40\<rparr> of
           None \<Rightarrow> 0 | Some n \<Rightarrow> n)"
    by blast
  have x: "calculateCategoryScore (Some ?xs) = 55"
    using x1 unfolding c m .
  have q: "js_round_quotient 110 2 = 55"
    using x2 unfolding s x by simp
  have y: "analyzer_calculateCategoryScore (Some ?ys) = 55"
    using y1 unfolding c m .
  show ?thesis
    using x y q i a by (simp add: eval_items)
qed

text \<open>
  The claim as stated fails in three ways: a score that is a text contributes 0 in the
  exception handler, not the compliance; a score of 0 falls back to the compliance there;
  the analyzer never falls back to the compliance.
\<close>

theorem category_aggregator_counterexample:
  "calculateCategoryScore (Some [item_text_score]) = 0
   \<and> spec_categoryScore (Some [item_text_score]) = 70
   \<and> calculateCategoryScore (Some [item_zero_score]) = 50
   \<and> spec_categoryScore (Some [item_zero_score]) = 0
   \<and> assembled_categoryScore (Some [item_no_score]) = Some 0
   \<and> spec_categoryScore (Some [item_no_score]) = 70"
  by (simp add: calculateCategoryScore_def assembled_categoryScore_def built_section_def
      as_built_def analyzer_calculateCategoryScore_def analyzer_contribution_def
      score_or_zero_def spec_categoryScore_def spec_contribution_def item_contribution_def
      js_or_def item_text_score_def item_zero_score_def item_no_score_def empty_item_def
      Math_round_div_def)

section \<open>The Overall Score Calculator\<close>

lemma push_section_eq:
  "push_section s scores = scores @ (if present s then [calculateCategoryScore s] else [])"
  by (cases s) (auto simp: push_section_def present_def)

lemma calculateOverallScore_pushed:
  "calculateOverallScore data =
     (let scores = (if present (designStyles data)
                    then [calculateCategoryScore (designStyles data)] else [])
                 @ (if present (components data)
                    then [calculateCategoryScore (components data)] else [])
                 @ (if present (basicPatterns data)
                    then [calculateCategoryScore (basicPatterns data)] else [])
                 @ (if present (servicePatterns data)
                    then [calculateCategoryScore (servicePatterns data)] else [])
      in if scores = [] then 0 else Math_round_div (sum_list scores) (int (length scores)))"
  by (simp add: calculateOverallScore_def push_section_eq Let_def foldl_plus add.assoc)

text \<open>What the analyzer computed for a result, section by section.\<close>

lemma as_built_contribution: "as_built it = Some y \<Longrightarrow> analyzer_contribution y = score_value it"
  by (cases "item.score it")
     (auto simp: as_built_def analyzer_contribution_def score_or_zero_def score_value_def)

lemma those_as_built:
  "those (map as_built xs) = Some ys \<Longrightarrow>
     length ys = length xs \<and> map analyzer_contribution ys = map score_value xs"
proof (induction xs arbitrary: ys)
  case Nil
  then show ?case by simp
next
  case (Cons it xs)
  then show ?case
    by (auto simp: as_built_contribution split: option.splits)
qed

lemma those_as_built_defined:
  "list_all (\<lambda>it. as_built it \<noteq> None) xs \<Longrightarrow> \<exists>ys. those (map as_built xs) = Some ys"
  by (induction xs) auto

lemma assembled_mean:
  assumes "xs \<noteq> []" and "list_all (\<lambda>it. as_built it \<noteq> None) xs"
  shows "assembled_categoryScore (Some xs) = Some (rounded_mean (map score_value xs))"
proof -
  obtain ys where ys: "those (map as_built xs) = Some ys"
    using those_as_built_defined [OF assms(2)] by blast
  have l: "length ys = length xs" "map analyzer_contribution ys = map score_value xs"
    using those_as_built [OF ys] by simp_all
  have ne: "ys \<noteq> []" using l(1) assms(1) by auto
  show ?thesis
    by (simp add: assembled_categoryScore_def built_section_def ys
        analyzer_calculateCategoryScore_mean [OF ne] l(2))
qed

lemma assembled_absent: "\<not> present s \<Longrightarrow> assembled_categoryScore s = Some 0"
  by (cases s)
     (auto simp: present_def assembled_categoryScore_def built_section_def
        analyzer_calculateCategoryScore_def)

lemma assembled_overallScore_sections:
  "assembled_overallScore data =
     (case (assembled_categoryScore (designStyles data),
            assembled_categoryScore (components data),
            assembled_categoryScore (basicPatterns data),
            assembled_categoryScore (servicePatterns data)) of
        (Some a, Some b, Some c, Some d) \<Rightarrow> Some (Math_round_div (a + b + c + d) 4)
      | _ \<Rightarrow> None)"
  by (cases "built_section (designStyles data)"; cases "built_section (components data)";
      cases "built_section (basicPatterns data)"; cases "built_section (servicePatterns data)")
     (simp_all add: assembled_overallScore_def assembled_categoryScore_def
        analyzer_calculateOverallScore_def Let_def add.assoc)

lemma map_of_nomatch:
  "map_of [(sec_designStyles, [exception_nomatch])] sec_designStyles = Some [exception_nomatch]"
  "map_of [(sec_designStyles, [exception_nomatch])] sec_components = None"
  "map_of [(sec_designStyles, [exception_nomatch])] sec_basicPatterns = None"
  "map_of [(sec_designStyles, [exception_nomatch])] sec_servicePatterns = None"
  using sec_distinct by simp_all

lemma excludedKeys_nomatch: "excludedKeys [exception_nomatch] = [''nonexistent'']"
  by (simp add: excludedKeys_def exception_key_def exception_nomatch_def empty_request_def
      or_lit_def or_str_def truthy_str_def)

lemma adjust_sections_nomatch:
  "adjust_sections [(sec_designStyles, [exception_nomatch])] result_one_section
     = result_one_section"
  unfolding adjust_sections_def map_of_nomatch adjust_krdsCompliance_def
  by (simp add: result_one_section_def adjust_if_def adjust_detail_if_def adjustSection_def
      adjust_item_def excludedKeys_nomatch adjustDesignTokensDetail_def itemKey_def
      item_field_def item_eighty_def empty_item_def or_lit_def or_str_def truthy_str_def
      Let_def)

lemma group_nomatch:
  "groupExceptionsBySection [exception_nomatch] = Inr [(sec_designStyles, [exception_nomatch])]"
  by (simp add: groupExceptionsBySection_def push_exception_def resolved_section_def
      exception_nomatch_def empty_request_def or_lit_def or_str_def truthy_str_def
      object_prototype_keys_def sec_designStyles_def Let_def)

lemma object_keys_nomatch:
  "object_keys [(sec_designStyles, [exception_nomatch])] = [sec_designStyles]"
  by (simp add: object_keys_def is_array_index_def sec_designStyles_def is_digit_def)

text \<open>
  Claim C1.  The specification has the overall score as the rounded mean of four section
  aggregates, an absent or empty section counting 0.  The analyzer computes that
  (\<^verbatim>\<open>calculateOverallScore\<close> in \<^verbatim>\<open>analyzer.js\<close>).  The function of the same name in
  \<^verbatim>\<open>exceptionHandler.js\<close>, which recomputes the score after an override, leaves the
  absent and empty sections out of the mean.  On the result with one design-styles item of
  score 80 and three empty sections the analyzer computed 20; an exception list whose one
  request matches no item leaves every section as it was, and the exception handler
  reports the overall score 80, the original score 20 and a score difference of 60.
\<close>

theorem recomputation_leaves_out_empty_sections:
  "analyzer_calculateOverallScore
       \<lparr>designStyles = Some [\<lparr>analyzer_item.score = Some 80\<rparr>], components = Some [],
        basicPatterns = Some [], servicePatterns = Some []\<rparr> = 20
   \<and> assembled_overallScore result_one_section = Some 20
   \<and> overallScore result_one_section = 20
   \<and> calculateOverallScore result_one_section = 80
   \<and> applyExceptions result_one_section (Some [exception_nomatch]) (Some ''template-123'')
       = Inr result_one_section_adjusted
   \<and> designStyles result_one_section_adjusted = designStyles result_one_section
   \<and> components result_one_section_adjusted = components result_one_section
   \<and> basicPatterns result_one_section_adjusted = basicPatterns result_one_section
   \<and> servicePatterns result_one_section_adjusted = servicePatterns result_one_section
   \<and> overallScore result_one_section_adjusted = 80
   \<and> map_option scoreDifference (exceptionInfo result_one_section_adjusted) = Some 60"
proof -
  have z: "analyzer_calculateOverallScore
       \<lparr>designStyles = Some [\<lparr>analyzer_item.score = Some 80\<rparr>], components = Some [],
        basicPatterns = Some [], servicePatterns = Some []\<rparr> = 20"
    by (simp add: analyzer_calculateOverallScore_def analyzer_calculateCategoryScore_def
        analyzer_contribution_def score_or_zero_def Math_round_div_def)
  have a: "assembled_overallScore result_one_section = Some 20"
    by (simp add: assembled_overallScore_def built_section_def as_built_def
        analyzer_calculateOverallScore_def analyzer_calculateCategoryScore_def
        analyzer_contribution_def score_or_zero_def result_one_section_def item_eighty_def
        empty_item_def Math_round_div_def)
  have h: "calculateOverallScore result_one_section = 80"
    by (simp add: calculateOverallScore_def push_section_def calculateCategoryScore_def
        item_contribution_def js_or_def result_one_section_def item_eighty_def empty_item_def
        Math_round_div_def)
  have r: "applyExceptions result_one_section (Some [exception_nomatch])
      (Some ''template-123'') = Inr result_one_section_adjusted"
    by (simp add: applyExceptions_def group_nomatch adjust_sections_nomatch h
        object_keys_nomatch result_one_section_adjusted_def Let_def)
       (simp add: result_one_section_def)
  show ?thesis
    using z a h r by (simp add: result_one_section_adjusted_def result_one_section_def)
qed

section \<open>Monotonicity of the override\<close>

lemma well_scored_facts:
  assumes "well_scored it"
  shows "0 \<le> score_value it" "score_value it \<le> item_contribution it"
    "item_contribution it \<le> 100" "as_built it \<noteq> None"
  using assms
  by (cases "item.score it"; cases "item.compliance it";
      auto simp: well_scored_def score_value_def item_contribution_def js_or_def as_built_def)+

lemma contribution_adjust_item:
  assumes "well_scored it"
  shows "item_contribution it \<le> item_contribution (adjust_item es kf it)"
proof (cases "itemKey kf it \<in> set (excludedKeys es)")
  case True
  then have "item_contribution (adjust_item es kf it) = 100"
    by (simp add: adjust_item_def item_contribution_def js_or_def Let_def)
  then show ?thesis using well_scored_facts(3) [OF assms] by simp
next
  case False
  then show ?thesis by (simp add: adjust_item_def Let_def)
qed

lemma sum_contribution_mono:
  "list_all well_scored xs \<Longrightarrow>
     sum_list (map score_value xs) \<le> sum_list (map item_contribution (map f xs))"
  if "\<And>it. well_scored it \<Longrightarrow> item_contribution it \<le> item_contribution (f it)"
proof (induction xs)
  case Nil
  then show ?case by simp
next
  case (Cons it xs)
  have "score_value it \<le> item_contribution (f it)"
    using Cons.prems that [of it] well_scored_facts(2) [of it] by simp
  with Cons show ?case by simp
qed

lemma sum_score_nonneg: "list_all well_scored xs \<Longrightarrow> 0 \<le> sum_list (map score_value xs)"
  by (induction xs) (auto dest: well_scored_facts(1))

lemma well_scored_built:
  "list_all well_scored xs \<Longrightarrow> list_all (\<lambda>it. as_built it \<noteq> None) xs"
  by (induction xs) (auto dest: well_scored_facts(4))

lemma Math_round_div_nonneg: "0 < n \<Longrightarrow> 0 \<le> t \<Longrightarrow> 0 \<le> Math_round_div t n"
  unfolding Math_round_div_def by (intro pos_imp_zdiv_nonneg_iff [THEN iffD2]) simp_all

text \<open>
  One section: the aggregate the analyzer computed for it is at most the aggregate the
  exception handler computes after the override.
\<close>

lemma section_step:
  assumes "list_all well_scored (items_of s)"
  shows "\<exists>a. assembled_categoryScore s = Some a
     \<and> (if present (adjust_if grp s kf)
        then 0 \<le> a \<and> a \<le> calculateCategoryScore (adjust_if grp s kf) else a = 0)"
proof (cases "present s")
  case False
  then have "adjust_if grp s kf = s"
    by (cases s; cases grp) (auto simp: present_def adjust_if_def adjustSection_def)
  with False show ?thesis
    by (simp add: assembled_absent)
next
  case True
  then obtain xs where s: "s = Some xs" "xs \<noteq> []"
    by (cases s) (auto simp: present_def)
  have wf: "list_all well_scored xs"
    using assms by (simp add: s items_of_def)
  let ?a = "Math_round_div (sum_list (map score_value xs)) (int (length xs))"
  have a: "assembled_categoryScore s = Some ?a"
    using s assembled_mean [OF s(2) well_scored_built [OF wf]]
    by (simp add: rounded_mean_code)
  have n: "0 < int (length xs)" using s(2) by simp
  have a0: "0 \<le> ?a"
    using Math_round_div_nonneg [OF n sum_score_nonneg [OF wf]] .
  obtain f where f: "adjust_if grp s kf = Some (map f xs)"
    "\<And>it. well_scored it \<Longrightarrow> item_contribution it \<le> item_contribution (f it)"
  proof (cases grp)
    case None
    show ?thesis
      using that [of "\<lambda>it. it"] by (simp add: adjust_if_def None s)
  next
    case (Some es)
    show ?thesis
      using that [of "adjust_item es kf"]
      by (simp add: adjust_if_def Some s adjustSection_Some contribution_adjust_item)
  qed
  have p: "present (adjust_if grp s kf) = present s"
    unfolding f(1) using s by (simp add: present_def)
  have "calculateCategoryScore (adjust_if grp s kf)
      = Math_round_div (sum_list (map item_contribution (map f xs))) (int (length xs))"
    using s(2) by (simp add: f(1) calculateCategoryScore_def foldl_contribution)
  moreover have "?a \<le> Math_round_div (sum_list (map item_contribution (map f xs))) (int (length xs))"
    using sum_contribution_mono [of f xs, OF f(2) wf] by (intro Math_round_div_mono n)
  ultimately have "?a \<le> calculateCategoryScore (adjust_if grp s kf)" by simp
  then show ?thesis
    using a a0 p True by simp
qed

lemma overall_mono_arith:
  assumes "if p1 then 0 \<le> a1 \<and> a1 \<le> h1 else a1 = 0"
    and "if p2 then 0 \<le> a2 \<and> a2 \<le> h2 else a2 = 0"
    and "if p3 then 0 \<le> a3 \<and> a3 \<le> h3 else a3 = 0"
    and "if p4 then 0 \<le> a4 \<and> a4 \<le> h4 else a4 = 0"
  shows "Math_round_div (a1 + a2 + a3 + a4) 4
     \<le> (let scores = (if p1 then [h1] else []) @ (if p2 then [h2] else [])
                      @ (if p3 then [h3] else []) @ (if p4 then [h4] else [])
        in if scores = [] then 0 else Math_round_div (sum_list scores) (int (length scores)))"
  using assms
  by (cases p1; cases p2; cases p3; cases p4; simp add: Math_round_div_def; arith)


text \<open>
  Claim C6.  For every analysis result that satisfies the invariants of the data model
  (scores are integers in [0,100], a numeric compliance lies in [0,100]) and is internally
  consistent (its overall score is the one the assembly computes from its sections), and
  for every non-empty exception list on which the engine returns, the audit record holds
  the input's overall score as original score and the recomputed overall score as adjusted
  score, and the adjusted score is at least the original score.  This holds whether or not
  an item matched.
\<close>

theorem override_never_lowers_score:
  assumes "well_formed r"
    and "assembled_overallScore r = Some (overallScore r)"
    and "es \<noteq> []"
    and "applyExceptions r (Some es) cid = Inr r'"
  shows "map_option originalScore (exceptionInfo r') = Some (overallScore r)
    \<and> map_option adjustedScore (exceptionInfo r') = Some (overallScore r')
    \<and> overallScore r \<le> overallScore r'"
proof -
  from assms(3,4) obtain g where g: "groupExceptionsBySection es = Inr g"
    by (rule applyExceptions_Inr)
  let ?adj = "adjust_sections g r"
  have r': "r' = ?adj\<lparr>overallScore := calculateOverallScore ?adj,
             exceptionInfo := Some
               \<lparr>applied = True, checklistId = cid, totalExceptions = length es,
                originalScore = overallScore r,
                adjustedScore = calculateOverallScore ?adj,
                scoreDifference = calculateOverallScore ?adj - overallScore r,
                sections = object_keys g\<rparr>\<rparr>"
    using assms(4) by (simp add: applyExceptions_grouped [OF assms(3) g])
  have wf: "list_all well_scored (items_of (designStyles r))"
    "list_all well_scored (items_of (components r))"
    "list_all well_scored (items_of (basicPatterns r))"
    "list_all well_scored (items_of (servicePatterns r))"
    using assms(1) by (simp_all add: well_formed_def)
  have adj: "designStyles ?adj = adjust_if (map_of g sec_designStyles) (designStyles r) ''category''"
    "components ?adj = adjust_if (map_of g sec_components) (components r) ''type''"
    "basicPatterns ?adj = adjust_if (map_of g sec_basicPatterns) (basicPatterns r) ''name''"
    "servicePatterns ?adj
       = adjust_if (map_of g sec_servicePatterns) (servicePatterns r) ''name''"
    by (simp_all add: adjust_sections_def)
  obtain a1 where a1: "assembled_categoryScore (designStyles r) = Some a1"
    "if present (designStyles ?adj)
     then 0 \<le> a1 \<and> a1 \<le> calculateCategoryScore (designStyles ?adj) else a1 = 0"
    using section_step [OF wf(1)] unfolding adj by blast
  obtain a2 where a2: "assembled_categoryScore (components r) = Some a2"
    "if present (components ?adj)
     then 0 \<le> a2 \<and> a2 \<le> calculateCategoryScore (components ?adj) else a2 = 0"
    using section_step [OF wf(2)] unfolding adj by blast
  obtain a3 where a3: "assembled_categoryScore (basicPatterns r) = Some a3"
    "if present (basicPatterns ?adj)
     then 0 \<le> a3 \<and> a3 \<le> calculateCategoryScore (basicPatterns ?adj) else a3 = 0"
    using section_step [OF wf(3)] unfolding adj by blast
  obtain a4 where a4: "assembled_categoryScore (servicePatterns r) = Some a4"
    "if present (servicePatterns ?adj)
     then 0 \<le> a4 \<and> a4 \<le> calculateCategoryScore (servicePatterns ?adj) else a4 = 0"
    using section_step [OF wf(4)] unfolding adj by blast
  have before: "overallScore r = Math_round_div (a1 + a2 + a3 + a4) 4"
    using assms(2) a1(1) a2(1) a3(1) a4(1)
    by (simp add: assembled_overallScore_sections)
  have "overallScore r \<le> calculateOverallScore ?adj"
    unfolding before calculateOverallScore_pushed
    by (rule overall_mono_arith [OF a1(2) a2(2) a3(2) a4(2)])
  then show ?thesis
    by (simp add: r')
qed

theorem override_never_lowers_score_witness:
  "well_formed sample_result
   \<and> assembled_overallScore sample_result = Some (overallScore sample_result)
   \<and> map_option originalScore (exceptionInfo sample_adjusted) = Some 65
   \<and> map_option adjustedScore (exceptionInfo sample_adjusted) = Some 73
   \<and> overallScore sample_result \<le> overallScore sample_adjusted"
proof -
  have wf: "well_formed sample_result"
    by (simp add: well_formed_def items_of_def well_scored_def sample_result_def
        item_colors_def item_typography_def item_button_def empty_item_def)
  have consistent: "assembled_overallScore sample_result
      = Some (overallScore sample_result)"
    by (simp add: assembled_overallScore_def built_section_def as_built_def
        analyzer_calculateOverallScore_def analyzer_calculateCategoryScore_def
        analyzer_contribution_def score_or_zero_def
        sample_result_def item_colors_def item_typography_def item_button_def empty_item_def
        Math_round_div_def)
  show ?thesis
    using override_never_lowers_score [OF wf consistent list.distinct(2) sample_apply]
      wf consistent
    by (simp add: sample_result_def sample_adjusted_def)
qed

section \<open>The accessibility report\<close>

lemma wcagLevel_value:
  "wcagLevel (generateKWCAGReport axe) =
     (if or_empty (violations axe) = [] then ''AA''
      else if list_ex is_critical (or_empty (violations axe)) then ''None'' else ''A'')"
  by (auto simp: generateKWCAGReport_def Let_def filter_empty_conv list_ex_iff is_critical_def)

lemma overallCompliance_value:
  "overallCompliance (generateKWCAGReport axe) =
     (let p = length (or_empty (passes axe)); v = length (or_empty (violations axe))
      in if v + p > 0 then percent p (v + p) else 0)"
  by (simp add: generateKWCAGReport_def Let_def)

lemma three_seven:
  "or_empty (violations axe_three_seven) = replicate 3 record_contrast"
  "or_empty (passes axe_three_seven) = replicate 7 record_contrast"
  "\<not> is_critical record_contrast"
  by (simp_all add: axe_three_seven_def empty_axe_def or_empty_def is_critical_def
      record_contrast_def)

lemma contrast_is_perceivable: "categorizeRule ''color-contrast'' = Perceivable"
  by (simp add: categorizeRule_def regex_test_def)

lemma contrast_buckets:
  "bucket c (or_empty (violations axe_contrast))
     = (if c = Perceivable then replicate 17 record_contrast else [])"
  "bucket c (or_empty (passes axe_contrast))
     = (if c = Perceivable then replicate 23 record_contrast else [])"
  by (auto simp: axe_contrast_def empty_axe_def or_empty_def bucket_def record_contrast_def
      contrast_is_perceivable)

text \<open>
  Claim C9.  For every accessibility report, the level is \<^verbatim>\<open>AA\<close> when there is no
  violation, otherwise \<^verbatim>\<open>None\<close> when some violation has impact \<^verbatim>\<open>critical\<close> or
  \<^verbatim>\<open>serious\<close>, otherwise \<^verbatim>\<open>A\<close>.  In particular a critical violation always yields
  \<^verbatim>\<open>None\<close>, and three violations, none of them critical or serious, with seven passes
  yield \<^verbatim>\<open>A\<close> and an overall compliance of 70.
\<close>

theorem wcag_level_classification:
  "wcagLevel (generateKWCAGReport axe) =
     (if or_empty (violations axe) = [] then ''AA''
      else if list_ex is_critical (or_empty (violations axe)) then ''None'' else ''A'')
   \<and> (list_ex (\<lambda>v. impact v = Some ''critical'') (or_empty (violations axe)) \<longrightarrow>
        wcagLevel (generateKWCAGReport axe) = ''None'')
   \<and> (length (or_empty (violations axe)) = 3 \<and> length (or_empty (passes axe)) = 7
       \<and> \<not> list_ex is_critical (or_empty (violations axe)) \<longrightarrow>
        wcagLevel (generateKWCAGReport axe) = ''A''
        \<and> overallCompliance (generateKWCAGReport axe) = 70)"
proof -
  have critical: "wcagLevel (generateKWCAGReport axe) = ''None''"
    if "list_ex (\<lambda>v. impact v = Some ''critical'') (or_empty (violations axe))"
  proof -
    from that have "list_ex is_critical (or_empty (violations axe))"
      by (auto simp: list_ex_iff is_critical_def)
    moreover from that have "or_empty (violations axe) \<noteq> []"
      by auto
    ultimately show ?thesis by (simp add: wcagLevel_value)
  qed
  have scenario: "wcagLevel (generateKWCAGReport axe) = ''A''
      \<and> overallCompliance (generateKWCAGReport axe) = 70"
    if "length (or_empty (violations axe)) = 3" "length (or_empty (passes axe)) = 7"
      "\<not> list_ex is_critical (or_empty (violations axe))"
  proof -
    from that(1) have "or_empty (violations axe) \<noteq> []" by auto
    with that show ?thesis
      by (simp add: wcagLevel_value overallCompliance_value percent_7_10)
  qed
  show ?thesis
    using wcagLevel_value [of axe] critical scenario by (intro conjI) blast+
qed

theorem wcag_level_classification_witness:
  "wcagLevel (generateKWCAGReport axe_three_seven) = ''A''
   \<and> overallCompliance (generateKWCAGReport axe_three_seven) = 70
   \<and> wcagLevel (generateKWCAGReport empty_axe) = ''AA''"
proof -
  have "\<not> list_ex is_critical (or_empty (violations axe_three_seven))"
    by (simp add: three_seven list_ex_iff)
  then have "wcagLevel (generateKWCAGReport axe_three_seven) = ''A''
      \<and> overallCompliance (generateKWCAGReport axe_three_seven) = 70"
    using wcag_level_classification [of axe_three_seven] by (simp add: three_seven)
  moreover have "wcagLevel (generateKWCAGReport empty_axe) = ''AA''"
    using wcag_level_classification [of empty_axe] by (simp add: empty_axe_def or_empty_def)
  ultimately show ?thesis by simp
qed

text \<open>
  Claim C10, as amended.  For every accessibility report and each of the four principles,
  the \<^verbatim>\<open>byCategory\<close> value is computed over the records that \<^verbatim>\<open>categorizeRule\<close>
  assigns to the principle (the keyword patterns tried in the order perceivable, operable,
  understandable, robust, with perceivable as default): it is 100 when the bucket has no
  violation and no pass, and otherwise \<^verbatim>\<open>Math.round((passes / total) * 100)\<close> with
  the quotient and the product rounded to double precision.  Every value is an integer in
  [0,100].  For a bucket of at most \<open>2 ^ 33\<close> records the value is
  \<open>round (100 * passes / (passes + violations))\<close> or one less, and it is that rounded
  value whenever \<open>100 * passes / (passes + violations)\<close> is not halfway between two
  integers.
\<close>

theorem bucket_compliance:
  "bucket_value (byCategory (generateKWCAGReport axe)) c =
     (let p = length (bucket c (or_empty (passes axe)));
          v = length (bucket c (or_empty (violations axe)))
      in if p + v = 0 then 100 else percent p (p + v))
   \<and> 0 \<le> bucket_value (byCategory (generateKWCAGReport axe)) c
   \<and> bucket_value (byCategory (generateKWCAGReport axe)) c \<le> 100
   \<and> (let p = length (bucket c (or_empty (passes axe)));
          v = length (bucket c (or_empty (violations axe)))
      in p + v \<le> 2 ^ 33 \<longrightarrow>
         spec_bucket_compliance p v - 1 \<le> bucket_value (byCategory (generateKWCAGReport axe)) c
         \<and> bucket_value (byCategory (generateKWCAGReport axe)) c \<le> spec_bucket_compliance p v
         \<and> ((200 * p + (p + v)) mod (2 * (p + v)) \<noteq> 0 \<longrightarrow>
              bucket_value (byCategory (generateKWCAGReport axe)) c
                = spec_bucket_compliance p v))"
proof -
  define p v where "p = length (bucket c (or_empty (passes axe)))"
    and "v = length (bucket c (or_empty (violations axe)))"
  define b where "b = bucket_value (byCategory (generateKWCAGReport axe)) c"
  have b: "b = (if p + v = 0 then 100 else percent p (p + v))"
    by (simp add: b_def p_def v_def byCategory_value category_score_def Let_def add.commute)
  have range: "0 \<le> b \<and> b \<le> 100"
    using category_score_range by (simp add: b_def byCategory_value)
  have near: "spec_bucket_compliance p v - 1 \<le> b \<and> b \<le> spec_bucket_compliance p v
      \<and> ((200 * p + (p + v)) mod (2 * (p + v)) \<noteq> 0 \<longrightarrow> b = spec_bucket_compliance p v)"
    if "p + v \<le> 2 ^ 33"
  proof (cases "p + v = 0")
    case True
    then show ?thesis by (simp add: b spec_bucket_compliance_def)
  next
    case False
    then have pv: "0 < p + v" "p \<le> p + v" by simp_all
    have bv: "b = percent p (p + v)"
      using False by (simp only: b if_False)
    have sv: "spec_bucket_compliance p v = Math_round_div (100 * int p) (int (p + v))"
      using False by (simp only: spec_bucket_compliance_def if_False)
    show ?thesis
      unfolding bv sv by (rule percent_near_exact [OF pv that])
  qed
  show ?thesis
    using b range near unfolding b_def p_def v_def Let_def by blast
qed

theorem bucket_compliance_witness:
  "bucket_value (byCategory (generateKWCAGReport axe_contrast)) Perceivable = 57
   \<and> bucket_value (byCategory (generateKWCAGReport axe_contrast)) Operable = 100
   \<and> spec_bucket_compliance 23 17 - 1
       \<le> bucket_value (byCategory (generateKWCAGReport axe_contrast)) Perceivable"
proof -
  note a = bucket_compliance [of axe_contrast Perceivable]
  note b = bucket_compliance [of axe_contrast Operable]
  have "bucket_value (byCategory (generateKWCAGReport axe_contrast)) Perceivable = 57"
    using a by (simp add: contrast_buckets percent_23_40)
  moreover have "bucket_value (byCategory (generateKWCAGReport axe_contrast)) Operable = 100"
    using b by (simp add: contrast_buckets)
  moreover have "spec_bucket_compliance 23 17 - 1
       \<le> bucket_value (byCategory (generateKWCAGReport axe_contrast)) Perceivable"
    using a by (simp add: contrast_buckets Let_def)
  ultimately show ?thesis by simp
qed

text \<open>
  The claim as stated fails: with 23 passes and 17 violations in a bucket the quotient
  \<open>23 / 40\<close> rounds to a double below 0.575, the product to a double below 57.5, and the
  value is 57, where \<open>round (100 * 23 / 40) = 58\<close>.
\<close>

theorem bucket_compliance_counterexample:
  "bucket_value (byCategory (generateKWCAGReport axe_contrast)) Perceivable = 57
   \<and> spec_bucket_compliance 23 17 = 58
   \<and> length (bucket Perceivable (or_empty (passes axe_contrast))) = 23
   \<and> length (bucket Perceivable (or_empty (violations axe_contrast))) = 17"
  by (simp add: byCategory_value category_score_def contrast_buckets percent_23_40
      spec_bucket_compliance_def Math_round_div_def)

end
